theory Spec2Isabelle
  imports Main
begin

section \<open>Values and strings of the Python program\<close>

text \<open>
  The program is \<^verbatim>\<open>src/function-app/function_app.py\<close>: an Event Grid handler
  \<^verbatim>\<open>ptu_ri_alert_function\<close> and its helper \<^verbatim>\<open>check_ptu_capacity\<close>.
  Python's unbounded integers are \<^typ>\<open>int\<close>, its strings are \<^typ>\<open>string\<close>,
  an attribute that may be \<^verbatim>\<open>None\<close> is an \<^typ>\<open>'a option\<close>.
\<close>

text \<open>
  The exceptions the modelled code can meet. The first three are raised by the Python
  operations of the handler itself, \<open>SdkError\<close> is any exception (a subclass of
  \<^verbatim>\<open>Exception\<close>) raised by a call into the Azure client libraries, with its message.
  Signals that are not subclasses of \<^verbatim>\<open>Exception\<close> (a keyboard interrupt, an
  interpreter exit) are no part of the model.
\<close>

datatype exn = IndexError | TypeError | AttributeError | SdkError string

text \<open>
  The parsed JSON payload of an event (\<^verbatim>\<open>event.get_json()\<close>). An object is the
  list of the items of the parsed \<^verbatim>\<open>dict\<close>. Numbers are integers: every operation
  modelled here treats a fractional number as it treats an integer.
\<close>

datatype json =
    JNull
  | JBool bool
  | JNum int
  | JStr string
  | JArr "json list"
  | JObj "(string \<times> json) list"

text \<open>
  \<^verbatim>\<open>s.lower()\<close>: the letters \<open>A\<close> to \<open>Z\<close> go to \<open>a\<close> to \<open>z\<close>, every other
  character stays. A string is its sequence of bytes here. Python lowers the letters
  outside ASCII as well; the only use of \<^verbatim>\<open>lower\<close> in the program is the test for
  the ASCII prefix \<open>provisioned\<close>, which no lowered letter outside ASCII can complete,
  so the test has the same answer.
\<close>

definition uppercase :: string where
  "uppercase = ''ABCDEFGHIJKLMNOPQRSTUVWXYZ''"

definition lowercase :: string where
  "lowercase = ''abcdefghijklmnopqrstuvwxyz''"

definition lower_char :: "char \<Rightarrow> char" where
  "lower_char c = (case map_of (zip uppercase lowercase) c of Some l \<Rightarrow> l | None \<Rightarrow> c)"

definition str_lower :: "string \<Rightarrow> string" where
  "str_lower s = map lower_char s"

text \<open>\<^verbatim>\<open>s.startswith(p)\<close>.\<close>

definition str_startswith :: "string \<Rightarrow> string \<Rightarrow> bool" where
  "str_startswith s p = (take (length p) s = p)"

text \<open>\<^verbatim>\<open>p in s\<close> on two strings: \<open>p\<close> occurs in \<open>s\<close> as a contiguous piece.\<close>

fun str_contains :: "string \<Rightarrow> string \<Rightarrow> bool" where
  "str_contains p [] = (p = [])"
| "str_contains p (c # cs) = (str_startswith (c # cs) p \<or> str_contains p cs)"

text \<open>
  \<^verbatim>\<open>s.split(sep)\<close> for a one-character separator: the pieces between the
  separators, so one piece more than there are separators. \<open>cur\<close> holds the
  characters of the piece being read, latest first.
\<close>

fun split_from :: "char \<Rightarrow> string \<Rightarrow> string \<Rightarrow> string list" where
  "split_from sep cur [] = [rev cur]"
| "split_from sep cur (c # cs) =
     (if c = sep then rev cur # split_from sep [] cs else split_from sep (c # cur) cs)"

definition str_split :: "string \<Rightarrow> char \<Rightarrow> string list" where
  "str_split s sep = split_from sep [] s"

text \<open>\<^verbatim>\<open>parts[i]\<close> for \<open>i \<ge> 0\<close>: an index past the end raises \<^verbatim>\<open>IndexError\<close>.\<close>

definition list_get :: "'a list \<Rightarrow> nat \<Rightarrow> exn + 'a" where
  "list_get xs i = (if i < length xs then Inr (xs ! i) else Inl IndexError)"

text \<open>
  \<^verbatim>\<open>d.get(key, default)\<close>: only a \<^verbatim>\<open>dict\<close> has the method; on any other JSON
  value the attribute lookup raises.
\<close>

fun dict_get :: "json \<Rightarrow> string \<Rightarrow> json \<Rightarrow> exn + json" where
  "dict_get (JObj kvs) k d = Inr (case map_of kvs k of Some v \<Rightarrow> v | None \<Rightarrow> d)"
| "dict_get _ k d = Inl AttributeError"

text \<open>
  \<^verbatim>\<open>'text' in value\<close> for a JSON value: a substring test on a string, membership
  in a list, key membership in a dict, and \<^verbatim>\<open>TypeError\<close> on a value that is not
  iterable.
\<close>

fun str_in_json :: "string \<Rightarrow> json \<Rightarrow> exn + bool" where
  "str_in_json p (JStr s) = Inr (str_contains p s)"
| "str_in_json p (JArr xs) = Inr (JStr p \<in> set xs)"
| "str_in_json p (JObj kvs) = Inr (p \<in> fst ` set kvs)"
| "str_in_json p _ = Inl TypeError"

text \<open>\<^verbatim>\<open>x or 0\<close> on an optional integer.\<close>

definition int_or_zero :: "int option \<Rightarrow> int" where
  "int_or_zero x = (case x of None \<Rightarrow> 0 | Some n \<Rightarrow> if n = 0 then 0 else n)"

section \<open>The log\<close>

text \<open>
  All the checker reports goes to \<^verbatim>\<open>logging\<close>. A log line is its level and the
  pieces of the formatted message, in order: literal text and the interpolated values
  (\<open>Quoted\<close> is a string the message puts between single quotes).
  The pictographs in the messages of the source are outside ASCII; they and the blanks
  that follow them are left out of the text.
\<close>

datatype level = INFO | WARNING | ERROR

datatype frag =
    Txt string
  | Quoted string
  | Num int
  | Opt "string option"
  | Json json
  | Exc exn

type_synonym log_line = "level \<times> frag list"

definition banner :: log_line where
  "banner = (INFO, [Txt (replicate 80 (CHR ''=''))])"

section \<open>The records read from Azure\<close>

record sku =
  sku_name :: "string option"
  sku_capacity :: "int option"

record deployment =
  dep_name :: "string option"
  dep_sku :: "sku option"

record reservation_order =
  order_name :: "string option"

text \<open>
  An attribute of an object: the object has it, with a value that may be \<^verbatim>\<open>None\<close>,
  or the object has no attribute of that name, and reading it raises
  \<^verbatim>\<open>AttributeError\<close>.
\<close>

datatype 'a attr = Absent | Attr 'a

text \<open>
  A reservation as the listing yields it. The checker reads five attributes of the
  object itself. The classes of the reservations library are no part of the source, so
  the shape of the object is left to the input: an object may have the four attributes
  after the name, or keep their values under \<^verbatim>\<open>properties\<close>, which the checker
  never reads.
\<close>

record reservation_properties =
  prop_display_name :: "string option"
  prop_sku_description :: "string option"
  prop_quantity :: "int option"
  prop_provisioning_state :: "string option"

record reservation =
  res_name :: "string option attr"
  display_name :: "string option attr"
  sku_description :: "string option attr"
  quantity :: "int option attr"
  provisioning_state :: "string option attr"
  properties :: "reservation_properties option"

text \<open>
  A paged listing is consumed by a \<^verbatim>\<open>for\<close> loop: it yields the items of the list
  and then either ends (\<open>None\<close>) or raises (\<open>Some e\<close>).
\<close>

type_synonym 'a paged = "'a list \<times> exn option"

text \<open>
  What the calls into the client libraries answer. The three constructors may raise;
  the three listings are read-only queries.
\<close>

record azure =
  DefaultAzureCredential :: "exn option"
  CognitiveServicesManagementClient :: "string \<Rightarrow> exn option"
  deployments_list :: "string \<Rightarrow> string \<Rightarrow> string \<Rightarrow> deployment paged"
  AzureReservationAPI :: "exn option"
  reservation_order_list :: "reservation_order paged"
  reservation_list :: "string option \<Rightarrow> reservation paged"

section \<open>The capacity checker\<close>

subsection \<open>Step 1: the deployments of the account\<close>

text \<open>
  The local variables of the loop over the deployments (lines 89 to 102), and the
  warnings it logs on the way.
\<close>

record dep_acc =
  total_deployed_ptus :: int
  new_deployment_ptus :: int
  deployment_details :: "frag list list"
  dep_log :: "log_line list"

definition dep_init :: dep_acc where
  "dep_init = \<lparr>total_deployed_ptus = 0, new_deployment_ptus = 0,
                deployment_details = [], dep_log = []\<rparr>"

text \<open>
  One pass of the loop body. \<^verbatim>\<open>dep.sku and dep.sku.name and ...\<close>: a missing sku,
  a missing name and an empty name are all false.
\<close>

definition deployment_step :: "string \<Rightarrow> dep_acc \<Rightarrow> deployment \<Rightarrow> dep_acc" where
  "deployment_step deployment_name a dep =
     (case dep_sku dep of
        None \<Rightarrow> a
      | Some sk \<Rightarrow>
          (case sku_name sk of
             None \<Rightarrow> a
           | Some nm \<Rightarrow>
               if nm \<noteq> [] \<and> str_startswith (str_lower nm) ''provisioned'' then
                 (let capacity = int_or_zero (sku_capacity sk);
                      a1 = a\<lparr>total_deployed_ptus := total_deployed_ptus a + capacity,
                             deployment_details := deployment_details a @
                               [[Txt ''  - '', Opt (dep_name dep), Txt '': '', Num capacity,
                                 Txt '' PTUs ('', Txt nm, Txt '')'']]\<rparr>
                  in if dep_name dep = Some deployment_name
                     then a1\<lparr>new_deployment_ptus := capacity,
                             dep_log := dep_log a1 @
                               [(WARNING, [Txt ''New deployment '', Quoted deployment_name,
                                           Txt '': '', Num capacity, Txt '' PTUs''])]\<rparr>
                     else a1)
               else a))"

definition scan_deployments :: "string \<Rightarrow> deployment list \<Rightarrow> dep_acc" where
  "scan_deployments deployment_name deps = foldl (deployment_step deployment_name) dep_init deps"

text \<open>The breakdown printed after a total: a title and the details, when there are any.\<close>

definition breakdown :: "string \<Rightarrow> frag list list \<Rightarrow> log_line list" where
  "breakdown title details =
     (if details \<noteq> [] then (INFO, [Txt title]) # map (\<lambda>detail. (INFO, detail)) details else [])"

subsection \<open>Step 2: the reservations of the subscription\<close>

record res_acc =
  total_reserved_ptus :: int
  reservation_details :: "frag list list"

definition res_init :: res_acc where
  "res_init = \<lparr>total_reserved_ptus = 0, reservation_details = []\<rparr>"

text \<open>
  \<^verbatim>\<open>reservation.display_name or reservation.name\<close>: the name is read only when
  the display name is \<^verbatim>\<open>None\<close> or empty.
\<close>

definition shown_name :: "reservation \<Rightarrow> exn + string option" where
  "shown_name r =
     (case display_name r of
        Absent \<Rightarrow> Inl AttributeError
      | Attr dn \<Rightarrow>
          if dn \<noteq> None \<and> dn \<noteq> Some [] then Inr dn
          else (case res_name r of Absent \<Rightarrow> Inl AttributeError | Attr n \<Rightarrow> Inr n))"

text \<open>
  One pass of the body of the inner loop (lines 122 to 125): the local variables after
  it, and the exception it raises when an attribute it reads is absent. Line 124 adds
  the quantity before line 125 reads the names and the state.
\<close>

definition reservation_body :: "res_acc \<Rightarrow> reservation \<Rightarrow> res_acc \<times> exn option" where
  "reservation_body a r =
     (case sku_description r of
        Absent \<Rightarrow> (a, Some AttributeError)
      | Attr None \<Rightarrow> (a, None)
      | Attr (Some sd) \<Rightarrow>
          if sd \<noteq> [] \<and> str_contains ''Provisioned Throughput'' sd then
            (case quantity r of
               Absent \<Rightarrow> (a, Some AttributeError)
             | Attr q \<Rightarrow>
                 (case shown_name r of
                    Inl e \<Rightarrow>
                      (a\<lparr>total_reserved_ptus := total_reserved_ptus a + int_or_zero q\<rparr>, Some e)
                  | Inr nm \<Rightarrow>
                      (case provisioning_state r of
                         Absent \<Rightarrow>
                           (a\<lparr>total_reserved_ptus := total_reserved_ptus a + int_or_zero q\<rparr>,
                            Some AttributeError)
                       | Attr ps \<Rightarrow>
                           (a\<lparr>total_reserved_ptus := total_reserved_ptus a + int_or_zero q,
                              reservation_details := reservation_details a @
                                [[Txt ''  - '', Opt nm, Txt '': '', Num (int_or_zero q),
                                  Txt '' PTUs ('', Opt ps, Txt '')'']]\<rparr>, None))))
          else (a, None))"

text \<open>The local variables after one pass, finished or not.\<close>

definition reservation_step :: "res_acc \<Rightarrow> reservation \<Rightarrow> res_acc" where
  "reservation_step a r = fst (reservation_body a r)"

text \<open>
  The inner loop over the reservations a listing yields (lines 120 to 125): the first
  pass that raises ends it.
\<close>

fun for_reservations :: "res_acc \<Rightarrow> reservation list \<Rightarrow> res_acc \<times> exn option" where
  "for_reservations a [] = (a, None)"
| "for_reservations a (r # rs) =
     (case reservation_body a r of
        (a', Some e) \<Rightarrow> (a', Some e)
      | (a', None) \<Rightarrow> for_reservations a' rs)"

text \<open>
  The outer loop (lines 119 to 125). An exception of the inner loop, or a listing that
  raises after its last item, ends both loops; the local variables keep what was added
  before.
\<close>

fun for_orders :: "azure \<Rightarrow> res_acc \<Rightarrow> reservation_order list \<Rightarrow> res_acc \<times> exn option" where
  "for_orders az a [] = (a, None)"
| "for_orders az a (order # orders) =
     (case reservation_list az (order_name order) of
        (rs, stop) \<Rightarrow>
          (case for_reservations a rs of
             (a', Some e) \<Rightarrow> (a', Some e)
           | (a', None) \<Rightarrow>
               (case stop of
                  Some e \<Rightarrow> (a', Some e)
                | None \<Rightarrow> for_orders az a' orders)))"

text \<open>The body of the inner \<^verbatim>\<open>try\<close> (lines 116 to 125), from the initial totals.\<close>

definition query_reservations :: "azure \<Rightarrow> res_acc \<times> exn option" where
  "query_reservations az =
     (case AzureReservationAPI az of
        Some e \<Rightarrow> (res_init, Some e)
      | None \<Rightarrow>
          (case reservation_order_list az of
             (orders, stop) \<Rightarrow>
               (case for_orders az res_init orders of
                  (a, Some e) \<Rightarrow> (a, Some e)
                | (a, None) \<Rightarrow> (a, stop))))"

text \<open>The inner \<^verbatim>\<open>except\<close> (lines 127 to 129).\<close>

definition reservation_warning :: "exn option \<Rightarrow> log_line list" where
  "reservation_warning raised =
     (case raised of
        None \<Rightarrow> []
      | Some e \<Rightarrow>
          [(WARNING, [Txt ''Could not query reservations: '', Exc e]),
           (WARNING, [Txt ''Note: Reservation data may be delayed up to 24 hours after purchase''])])"

subsection \<open>Step 3: the comparison\<close>

definition report :: "string \<Rightarrow> int \<Rightarrow> int \<Rightarrow> int \<Rightarrow> log_line list" where
  "report deployment_name total_deployed new_deployment total_reserved =
     (if total_reserved = 0 then
        [(WARNING, [Txt ''NO RESERVATIONS FOUND!'']),
         (WARNING, [Txt ''   All '', Num total_deployed, Txt '' deployed PTUs will be billed hourly'']),
         (WARNING, [Txt ''   Consider purchasing reservations for cost savings''])]
      else if total_deployed \<le> total_reserved then
        (let available = total_reserved - total_deployed
         in [(INFO, [Txt ''FULLY COVERED by reservations'']),
             (INFO, [Txt ''   Deployed: '', Num total_deployed, Txt '' PTUs'']),
             (INFO, [Txt ''   Reserved: '', Num total_reserved, Txt '' PTUs'']),
             (INFO, [Txt ''   Available: '', Num available, Txt '' PTUs'']),
             (INFO, [Txt ''   New deployment '', Quoted deployment_name, Txt '' ('', Num new_deployment,
                     Txt '' PTUs) is covered''])])
      else
        (let excess = total_deployed - total_reserved
         in [(ERROR, [Txt ''EXCEEDS RESERVATIONS!'']),
             (ERROR, [Txt ''   Deployed: '', Num total_deployed, Txt '' PTUs'']),
             (ERROR, [Txt ''   Reserved: '', Num total_reserved, Txt '' PTUs'']),
             (ERROR, [Txt ''   EXCESS: '', Num excess, Txt '' PTUs (will be billed hourly)''])] @
            (if new_deployment > 0 then
               [(ERROR, [Txt ''   New deployment '', Quoted deployment_name, Txt '' ('', Num new_deployment,
                         Txt '' PTUs) may be partially/fully billed hourly''])]
             else []) @
            [(ERROR, [Txt ''   Consider purchasing additional '', Num excess,
                      Txt '' PTU reservations!''])]))"

subsection \<open>The whole checker\<close>

text \<open>Lines 104 to 163: what follows the loop over the deployments.\<close>

definition after_deployments :: "azure \<Rightarrow> string \<Rightarrow> dep_acc \<Rightarrow> log_line list" where
  "after_deployments az deployment_name d =
     (case query_reservations az of
        (r, raised) \<Rightarrow>
          [(INFO, [Txt ''Total deployed PTUs in this account: '', Num (total_deployed_ptus d)])] @
          breakdown ''Deployment breakdown:'' (deployment_details d) @
          [(INFO, [Txt ''Checking PTU reservations in subscription...''])] @
          reservation_warning raised @
          [(INFO, [Txt ''Total reserved PTUs in subscription: '', Num (total_reserved_ptus r)])] @
          breakdown ''Reservation breakdown:'' (reservation_details r) @
          [banner, (INFO, [Txt ''CAPACITY vs RESERVATIONS REPORT'']), banner] @
          report deployment_name (total_deployed_ptus d) (new_deployment_ptus d)
            (total_reserved_ptus r) @
          [banner])"

text \<open>
  The body of the outer \<^verbatim>\<open>try\<close> (lines 83 to 163): the lines logged, and the
  exception that leaves the body, if any.
\<close>

definition check_body ::
  "azure \<Rightarrow> string \<Rightarrow> string \<Rightarrow> string \<Rightarrow> string \<Rightarrow> log_line list \<times> exn option" where
  "check_body az subscription_id resource_group account_name deployment_name =
     (case DefaultAzureCredential az of
        Some e \<Rightarrow> ([], Some e)
      | None \<Rightarrow>
          (case CognitiveServicesManagementClient az subscription_id of
             Some e \<Rightarrow> ([(INFO, [Txt ''Scanning deployments in account: '', Txt account_name])], Some e)
           | None \<Rightarrow>
               (case deployments_list az subscription_id resource_group account_name of
                  (deps, stop) \<Rightarrow>
                    (case stop of
                       Some e \<Rightarrow>
                         ((INFO, [Txt ''Scanning deployments in account: '', Txt account_name]) #
                          dep_log (scan_deployments deployment_name deps), Some e)
                     | None \<Rightarrow>
                         ((INFO, [Txt ''Scanning deployments in account: '', Txt account_name]) #
                          dep_log (scan_deployments deployment_name deps) @
                          after_deployments az deployment_name
                            (scan_deployments deployment_name deps), None)))))"

text \<open>
  \<^verbatim>\<open>check_ptu_capacity\<close>: the lines it logs and the exception it raises to its
  caller, if any. The outer \<^verbatim>\<open>except\<close> (lines 165 to 167) logs the exception twice,
  the second time with its traceback.
\<close>

definition check_ptu_capacity ::
  "azure \<Rightarrow> string \<Rightarrow> string \<Rightarrow> string \<Rightarrow> string \<Rightarrow> log_line list \<times> exn option" where
  "check_ptu_capacity az subscription_id resource_group account_name deployment_name =
     (case check_body az subscription_id resource_group account_name deployment_name of
        (l, None) \<Rightarrow> ([banner, (INFO, [Txt ''PTU CAPACITY CHECK'']), banner] @ l, None)
      | (l, Some e) \<Rightarrow>
          ([banner, (INFO, [Txt ''PTU CAPACITY CHECK'']), banner] @ l @
           [(ERROR, [Txt ''Error checking PTU capacity: '', Exc e]), (ERROR, [Exc e])], None))"

section \<open>The event handler\<close>

record event =
  ev_id :: string
  ev_event_type :: string
  ev_subject :: string
  ev_event_time :: string
  ev_json :: json

text \<open>The dictionary the handler returns, with its three keys.\<close>

record response =
  status :: string
  event_id :: string
  event_type :: string

text \<open>
  The condition of line 37. \<^verbatim>\<open>and\<close> evaluates its right side only when the left
  side is true.
\<close>

definition is_deployment_event :: "string \<Rightarrow> json \<Rightarrow> exn + bool" where
  "is_deployment_event subject operation_name =
     (if str_contains ''Microsoft.CognitiveServices/accounts'' subject
      then str_in_json ''deployments/write'' operation_name
      else Inr False)"

text \<open>
  Lines 43 to 47: subscription id, resource group, account name and deployment name
  from the subject.
\<close>

definition parse_subject :: "string \<Rightarrow> exn + (string \<times> string \<times> string \<times> string)" where
  "parse_subject subject =
     (let parts = str_split subject (CHR ''/'')
      in case list_get parts 2 of
           Inl e \<Rightarrow> Inl e
         | Inr subscription_id \<Rightarrow>
             (case list_get parts 4 of
                Inl e \<Rightarrow> Inl e
              | Inr resource_group \<Rightarrow>
                  (case list_get parts 8 of
                     Inl e \<Rightarrow> Inl e
                   | Inr account_name \<Rightarrow>
                       Inr (subscription_id, resource_group, account_name,
                            if length parts > 10 then parts ! 10 else ''unknown''))))"

text \<open>The body of the handler's \<^verbatim>\<open>try\<close> (lines 43 to 55).\<close>

definition process_deployment :: "azure \<Rightarrow> string \<Rightarrow> log_line list \<times> exn option" where
  "process_deployment az subject =
     (case parse_subject subject of
        Inl e \<Rightarrow> ([], Some e)
      | Inr (subscription_id, resource_group, account_name, deployment_name) \<Rightarrow>
          (case check_ptu_capacity az subscription_id resource_group account_name
                  deployment_name of
             (l, raised) \<Rightarrow>
               ([(INFO, [Txt ''Subscription: '', Txt subscription_id]),
                 (INFO, [Txt ''Resource Group: '', Txt resource_group]),
                 (INFO, [Txt ''Account: '', Txt account_name]),
                 (INFO, [Txt ''Deployment: '', Txt deployment_name])] @ l, raised)))"

text \<open>The branch of a deployment event (lines 38 to 59), with the handler's \<^verbatim>\<open>except\<close>.\<close>

definition on_deployment :: "azure \<Rightarrow> string \<Rightarrow> log_line list" where
  "on_deployment az subject =
     [(WARNING, [Txt ''AI deployment detected!'']), (WARNING, [Txt ''   Resource: '', Txt subject])] @
     (case process_deployment az subject of
        (l, None) \<Rightarrow> l
      | (l, Some e) \<Rightarrow>
          l @ [(ERROR, [Txt ''Error processing deployment event: '', Exc e]), (ERROR, [Exc e])])"

definition skipped_lines :: "log_line list" where
  "skipped_lines = [(INFO, [Txt ''Non-deployment event, skipping PTU check''])]"

definition opening_lines :: "event \<Rightarrow> log_line list" where
  "opening_lines event =
     [banner, (INFO, [Txt ''Event Grid trigger function activated!'']), banner,
      (INFO, [Txt ''Event ID: '', Txt (ev_id event)]),
      (INFO, [Txt ''Event Type: '', Txt (ev_event_type event)]),
      (INFO, [Txt ''Event Subject: '', Txt (ev_subject event)]),
      (INFO, [Txt ''Event Time: '', Txt (ev_event_time event)])]"

definition closing_lines :: "log_line list" where
  "closing_lines = [banner, (INFO, [Txt ''Event processing complete'']), banner]"

text \<open>
  \<^verbatim>\<open>ptu_ri_alert_function\<close>: the lines logged, and either the exception that leaves
  the handler or the dictionary it returns.
\<close>

definition ptu_ri_alert_function :: "azure \<Rightarrow> event \<Rightarrow> log_line list \<times> (exn + response)" where
  "ptu_ri_alert_function az event =
     (case dict_get (ev_json event) ''operationName'' (JStr ''N/A'') of
        Inl e \<Rightarrow> (opening_lines event, Inl e)
      | Inr operation_name \<Rightarrow>
          (case dict_get (ev_json event) ''status'' (JStr ''N/A'') of
             Inl e \<Rightarrow> (opening_lines event, Inl e)
           | Inr st \<Rightarrow>
               (case is_deployment_event (ev_subject event) operation_name of
                  Inl e \<Rightarrow>
                    (opening_lines event @
                     [(INFO, [Txt ''Operation: '', Json operation_name]), (INFO, [Txt ''Status: '', Json st])],
                     Inl e)
                | Inr matches \<Rightarrow>
                    (opening_lines event @
                     [(INFO, [Txt ''Operation: '', Json operation_name]), (INFO, [Txt ''Status: '', Json st])] @
                     (if matches then on_deployment az (ev_subject event) else skipped_lines) @
                     closing_lines,
                     Inr \<lparr>status = ''success'', event_id = ev_id event,
                          event_type = ev_event_type event\<rparr>))))"

section \<open>The specification's notions\<close>

text \<open>
  The definitions of this section follow the words of the specification, not the code;
  the theorems compare the two.
\<close>

text \<open>Two characters are the same letter when they are equal or differ in case only.\<close>

definition same_letter :: "char \<Rightarrow> char \<Rightarrow> bool" where
  "same_letter a b =
     (a = b \<or> (a, b) \<in> set (zip uppercase lowercase) \<or> (b, a) \<in> set (zip uppercase lowercase))"

text \<open>\<open>s\<close> begins with \<open>p\<close>, compared case-insensitively.\<close>

definition begins_ignoring_case :: "string \<Rightarrow> string \<Rightarrow> bool" where
  "begins_ignoring_case s p =
     (length p \<le> length s \<and> list_all2 same_letter (take (length p) s) p)"

text \<open>A deployment whose sku name begins with \<open>provisioned\<close>, in any case.\<close>

definition provisioned :: "deployment \<Rightarrow> bool" where
  "provisioned dep =
     (case dep_sku dep of
        None \<Rightarrow> False
      | Some sk \<Rightarrow>
          (case sku_name sk of None \<Rightarrow> False | Some nm \<Rightarrow> begins_ignoring_case nm ''provisioned''))"

text \<open>The capacity field of a deployment, a missing one counted as 0.\<close>

definition capacity_of :: "deployment \<Rightarrow> int" where
  "capacity_of dep =
     (case dep_sku dep of
        None \<Rightarrow> 0
      | Some sk \<Rightarrow> (case sku_capacity sk of None \<Rightarrow> 0 | Some c \<Rightarrow> c))"

definition sum_deployed :: "deployment list \<Rightarrow> int" where
  "sum_deployed deps = sum_list (map capacity_of (filter provisioned deps))"

text \<open>\<open>s\<close> contains \<open>p\<close>.\<close>

definition occurs_in :: "string \<Rightarrow> string \<Rightarrow> bool" where
  "occurs_in p s = (\<exists>before after. s = before @ p @ after)"

text \<open>
  A reservation whose sku description, as an attribute of the object, contains the
  marker.
\<close>

definition ptu_reservation :: "reservation \<Rightarrow> bool" where
  "ptu_reservation r =
     (case sku_description r of
        Attr (Some sd) \<Rightarrow> occurs_in ''Provisioned Throughput'' sd
      | _ \<Rightarrow> False)"

text \<open>
  The quantity of a reservation, as an attribute of the object; a missing one counts
  as 0.
\<close>

definition quantity_of :: "reservation \<Rightarrow> int" where
  "quantity_of r = (case quantity r of Attr (Some q) \<Rightarrow> q | _ \<Rightarrow> 0)"

definition sum_reserved :: "reservation list \<Rightarrow> int" where
  "sum_reserved rs = sum_list (map quantity_of (filter ptu_reservation rs))"

subsection \<open>The reservations a run reaches\<close>

text \<open>
  The reservations of a listing that the inner loop reaches: all of them, or those up
  to and including the first one on which the body raises.
\<close>

fun reached :: "reservation list \<Rightarrow> reservation list" where
  "reached [] = []"
| "reached (r # rs) =
     (if snd (reservation_body res_init r) = None then r # reached rs else [r])"

text \<open>
  The reservations the enumeration reaches before it ends or fails: those of each order
  in turn, up to the first failure.
\<close>

fun yielded :: "azure \<Rightarrow> reservation_order list \<Rightarrow> reservation list" where
  "yielded az [] = []"
| "yielded az (order # orders) =
     (case reservation_list az (order_name order) of
        (rs, stop) \<Rightarrow>
          if snd (for_reservations res_init rs) = None \<and> stop = None
          then rs @ yielded az orders
          else reached rs)"

definition reservations_seen :: "azure \<Rightarrow> reservation list" where
  "reservations_seen az =
     (case AzureReservationAPI az of
        Some e \<Rightarrow> []
      | None \<Rightarrow> yielded az (fst (reservation_order_list az)))"

subsection \<open>The lines of the comparison\<close>

text \<open>
  The lines by which the comparison tells its outcome: the headline of each of the three
  cases, the slack of the second, the excess of the third and its line about the new
  deployment.
\<close>

definition verdict_line :: "log_line \<Rightarrow> bool" where
  "verdict_line l \<longleftrightarrow>
     l = (WARNING, [Txt ''NO RESERVATIONS FOUND!'']) \<or>
     l = (INFO, [Txt ''FULLY COVERED by reservations'']) \<or>
     l = (ERROR, [Txt ''EXCEEDS RESERVATIONS!'']) \<or>
     (\<exists>n. l = (INFO, [Txt ''   Available: '', Num n, Txt '' PTUs''])) \<or>
     (\<exists>n. l = (ERROR, [Txt ''   EXCESS: '', Num n, Txt '' PTUs (will be billed hourly)''])) \<or>
     (\<exists>name n. l = (ERROR, [Txt ''   New deployment '', Quoted name, Txt '' ('', Num n,
                             Txt '' PTUs) may be partially/fully billed hourly'']))"

section \<open>Example inputs\<close>

text \<open>
  Five deployments: three with a provisioned sku (10, 20 and 5 units), one with a
  standard sku, one without a sku.
\<close>

definition example_deployments :: "deployment list" where
  "example_deployments =
     [\<lparr>dep_name = Some ''gpt-a'',
        dep_sku = Some \<lparr>sku_name = Some ''ProvisionedManaged'', sku_capacity = Some 10\<rparr>\<rparr>,
      \<lparr>dep_name = Some ''gpt-b'',
        dep_sku = Some \<lparr>sku_name = Some ''PROVISIONED'', sku_capacity = Some 20\<rparr>\<rparr>,
      \<lparr>dep_name = Some ''gpt-c'',
        dep_sku = Some \<lparr>sku_name = Some ''provisioned-managed'', sku_capacity = Some 5\<rparr>\<rparr>,
      \<lparr>dep_name = Some ''gpt-d'',
        dep_sku = Some \<lparr>sku_name = Some ''Standard'', sku_capacity = Some 50\<rparr>\<rparr>,
      \<lparr>dep_name = Some ''gpt-e'', dep_sku = None\<rparr>]"

text \<open>
  Two reservations that have the attributes the checker reads: one of 100 provisioned
  units, one of another product.
\<close>

definition example_reservations :: "reservation list" where
  "example_reservations =
     [\<lparr>res_name = Attr (Some ''r-1''), display_name = Attr (Some ''PTU block''),
        sku_description = Attr (Some ''Azure OpenAI Provisioned Throughput''),
        quantity = Attr (Some 100), provisioning_state = Attr (Some ''Succeeded''),
        properties = None\<rparr>,
      \<lparr>res_name = Attr (Some ''r-2''), display_name = Attr None,
        sku_description = Attr (Some ''Virtual Machines''),
        quantity = Attr None, provisioning_state = Attr (Some ''Succeeded''),
        properties = None\<rparr>]"

text \<open>
  The reservation of 100 provisioned units in the shape of the class
  \<^verbatim>\<open>ReservationResponse\<close> of \<^verbatim>\<open>azure.mgmt.reservations\<close>: the object has a
  name, and keeps display name, sku description, quantity and provisioning state under
  \<^verbatim>\<open>properties\<close>.
\<close>

definition sdk_reservations :: "reservation list" where
  "sdk_reservations =
     [\<lparr>res_name = Attr (Some ''r-1''), display_name = Absent, sku_description = Absent,
        quantity = Absent, provisioning_state = Absent,
        properties =
          Some \<lparr>prop_display_name = Some ''PTU block'',
                prop_sku_description = Some ''Azure OpenAI Provisioned Throughput'',
                prop_quantity = Some 100,
                prop_provisioning_state = Some ''Succeeded''\<rparr>\<rparr>]"

text \<open>Every call succeeds; there is one reservation order.\<close>

definition example_azure :: azure where
  "example_azure =
     \<lparr>DefaultAzureCredential = None,
      CognitiveServicesManagementClient = (\<lambda>subscription_id. None),
      deployments_list =
        (\<lambda>subscription_id resource_group account_name. (example_deployments, None)),
      AzureReservationAPI = None,
      reservation_order_list = ([\<lparr>order_name = Some ''order-1''\<rparr>], None),
      reservation_list = (\<lambda>order. (example_reservations, None))\<rparr>"

text \<open>
  Two reservation orders; the listing of the second yields one reservation of 40 units
  and then fails.
\<close>

definition failing_azure :: azure where
  "failing_azure =
     example_azure
       \<lparr>reservation_order_list :=
          ([\<lparr>order_name = Some ''order-1''\<rparr>, \<lparr>order_name = Some ''order-2''\<rparr>], None),
        reservation_list :=
          (\<lambda>order.
             if order = Some ''order-2''
             then ([\<lparr>res_name = Attr (Some ''r-3''), display_name = Attr None,
                      sku_description = Attr (Some ''Provisioned Throughput Units''),
                      quantity = Attr (Some 40), provisioning_state = Attr None,
                      properties = None\<rparr>],
                   Some (SdkError ''timeout''))
             else (example_reservations, None))\<rparr>"

text \<open>Every call succeeds; the one reservation has the shape of the library's class.\<close>

definition sdk_azure :: azure where
  "sdk_azure = example_azure\<lparr>reservation_list := (\<lambda>order. (sdk_reservations, None))\<rparr>"

text \<open>Every call succeeds; the one reservation covers 30 units only.\<close>

definition small_azure :: azure where
  "small_azure =
     example_azure
       \<lparr>reservation_list :=
          (\<lambda>order.
             ([\<lparr>res_name = Attr (Some ''r-4''), display_name = Attr (Some ''small block''),
                 sku_description = Attr (Some ''Provisioned Throughput''),
                 quantity = Attr (Some 30), provisioning_state = Attr (Some ''Succeeded''),
                 properties = None\<rparr>], None))\<rparr>"

text \<open>No credential can be obtained.\<close>

definition no_credential_azure :: azure where
  "no_credential_azure =
     example_azure\<lparr>DefaultAzureCredential := Some (SdkError ''no credential'')\<rparr>"

text \<open>
  The event of a write to the deployment \<open>gpt-b\<close>, as Event Grid sends it, and the
  same event with the operation of a write to the account.
\<close>

definition example_event :: event where
  "example_event =
     \<lparr>ev_id = ''event-1'',
      ev_event_type = ''Microsoft.Resources.ResourceWriteSuccess'',
      ev_subject = ''/subscriptions/sub-1/resourceGroups/rg-1/providers/Microsoft.CognitiveServices/accounts/acct-1/deployments/gpt-b'',
      ev_event_time = ''2025-01-01T00:00:00Z'',
      ev_json = JObj [(''operationName'',
                       JStr ''Microsoft.CognitiveServices/accounts/deployments/write''),
                      (''status'', JStr ''Succeeded'')]\<rparr>"

definition account_event :: event where
  "account_event =
     example_event
       \<lparr>ev_json := JObj [(''operationName'', JStr ''Microsoft.CognitiveServices/accounts/write''),
                         (''status'', JStr ''Succeeded'')]\<rparr>"

text \<open>Two shorter subjects, of 9 and of 8 segments.\<close>

definition account_subject :: string where
  "account_subject =
     ''/subscriptions/sub-1/resourceGroups/rg-1/providers/Microsoft.CognitiveServices/accounts/acct-1''"

definition short_subject :: string where
  "short_subject =
     ''/subscriptions/sub-1/resourceGroups/rg-1/providers/Microsoft.CognitiveServices/accounts''"

section \<open>The prefix test of the deployments\<close>

lemma lower_char_eq: "lower_char a =
  (if a = CHR ''A'' then CHR ''a'' else if a = CHR ''B'' then CHR ''b'' else if a = CHR ''C'' then CHR ''c''
   else if a = CHR ''D'' then CHR ''d'' else if a = CHR ''E'' then CHR ''e'' else if a = CHR ''F'' then CHR ''f''
   else if a = CHR ''G'' then CHR ''g'' else if a = CHR ''H'' then CHR ''h'' else if a = CHR ''I'' then CHR ''i''
   else if a = CHR ''J'' then CHR ''j'' else if a = CHR ''K'' then CHR ''k'' else if a = CHR ''L'' then CHR ''l''
   else if a = CHR ''M'' then CHR ''m'' else if a = CHR ''N'' then CHR ''n'' else if a = CHR ''O'' then CHR ''o''
   else if a = CHR ''P'' then CHR ''p'' else if a = CHR ''Q'' then CHR ''q'' else if a = CHR ''R'' then CHR ''r''
   else if a = CHR ''S'' then CHR ''s'' else if a = CHR ''T'' then CHR ''t'' else if a = CHR ''U'' then CHR ''u''
   else if a = CHR ''V'' then CHR ''v'' else if a = CHR ''W'' then CHR ''w'' else if a = CHR ''X'' then CHR ''x''
   else if a = CHR ''Y'' then CHR ''y'' else if a = CHR ''Z'' then CHR ''z'' else a)"
  unfolding lower_char_def uppercase_def lowercase_def
  by simp


lemma lower_char_letter:
  assumes "b \<in> set ''provisioned''"
  shows "lower_char a = b \<longleftrightarrow> same_letter a b"
proof -
  from assms consider "b = CHR ''p''" | "b = CHR ''r''" | "b = CHR ''o''" | "b = CHR ''v''"
    | "b = CHR ''i''" | "b = CHR ''s''" | "b = CHR ''n''" | "b = CHR ''e''" | "b = CHR ''d''"
    by auto
  then show ?thesis
    by cases (simp_all add: lower_char_eq same_letter_def uppercase_def lowercase_def)
qed


lemma take_map_eq:
  "take (length p) (map f s) = p \<longleftrightarrow>
     length p \<le> length s \<and> list_all2 (\<lambda>a b. f a = b) (take (length p) s) p"
proof -
  have rel: "list_all2 (\<lambda>a b. f a = b) xs p \<longleftrightarrow> map f xs = p" for xs
    using list.rel_map(1) [of "(=)" f xs p] by (simp add: list.rel_eq)
  show ?thesis
  proof
    assume eq: "take (length p) (map f s) = p"
    then have "length (take (length p) (map f s)) = length p" by simp
    then have "length p \<le> length s" by simp
    with eq show "length p \<le> length s \<and> list_all2 (\<lambda>a b. f a = b) (take (length p) s) p"
      by (simp add: rel take_map)
  next
    assume "length p \<le> length s \<and> list_all2 (\<lambda>a b. f a = b) (take (length p) s) p"
    then show "take (length p) (map f s) = p" by (simp add: rel take_map)
  qed
qed

lemma list_all2_letters:
  "list_all2 (\<lambda>a b. lower_char a = b) xs ''provisioned'' \<longleftrightarrow>
   list_all2 same_letter xs ''provisioned''"
proof
  assume "list_all2 (\<lambda>a b. lower_char a = b) xs ''provisioned''"
  then show "list_all2 same_letter xs ''provisioned''"
    by (rule list.rel_mono_strong) (simp only: lower_char_letter)
next
  assume "list_all2 same_letter xs ''provisioned''"
  then show "list_all2 (\<lambda>a b. lower_char a = b) xs ''provisioned''"
    by (rule list.rel_mono_strong) (simp only: lower_char_letter)
qed

lemma lower_startswith_provisioned:
  "str_startswith (str_lower nm) ''provisioned'' \<longleftrightarrow> begins_ignoring_case nm ''provisioned''"
  unfolding str_startswith_def str_lower_def begins_ignoring_case_def
  by (simp only: take_map_eq list_all2_letters)

lemma startswith_provisioned:
  "nm \<noteq> [] \<and> str_startswith (str_lower nm) ''provisioned'' \<longleftrightarrow>
   begins_ignoring_case nm ''provisioned''"
proof -
  have "begins_ignoring_case nm ''provisioned'' \<Longrightarrow> nm \<noteq> []"
    by (auto simp: begins_ignoring_case_def)
  then show ?thesis
    unfolding lower_startswith_provisioned by blast
qed

section \<open>The deployed total\<close>

lemma int_or_zero_eq: "int_or_zero x = (case x of None \<Rightarrow> 0 | Some n \<Rightarrow> n)"
  by (simp add: int_or_zero_def split: option.splits)

lemma deployment_step_total:
  "total_deployed_ptus (deployment_step t a d) =
   total_deployed_ptus a + (if provisioned d then capacity_of d else 0)"
  by (simp add: deployment_step_def provisioned_def capacity_of_def int_or_zero_eq
      startswith_provisioned Let_def split: option.splits)

lemma foldl_deployment_total:
  "total_deployed_ptus (foldl (deployment_step t) a ds) = total_deployed_ptus a + sum_deployed ds"
  by (induction ds arbitrary: a) (simp_all add: deployment_step_total sum_deployed_def)

lemma scan_deployments_total:
  "total_deployed_ptus (scan_deployments t ds) = sum_deployed ds"
  by (simp add: scan_deployments_def foldl_deployment_total dep_init_def)


text \<open>The log of the checker when the deployments are listed without failure.\<close>

lemma check_ptu_capacity_listed:
  assumes "DefaultAzureCredential az = None"
    and "CognitiveServicesManagementClient az subscription_id = None"
    and "deployments_list az subscription_id resource_group account_name = (deps, None)"
  shows "check_ptu_capacity az subscription_id resource_group account_name deployment_name =
         ([banner, (INFO, [Txt ''PTU CAPACITY CHECK'']), banner,
           (INFO, [Txt ''Scanning deployments in account: '', Txt account_name])] @
          dep_log (scan_deployments deployment_name deps) @
          after_deployments az deployment_name (scan_deployments deployment_name deps), None)"
  using assms by (simp add: check_ptu_capacity_def check_body_def)


lemma begins_provisioned_simps:
  "begins_ignoring_case ''ProvisionedManaged'' ''provisioned''"
  "begins_ignoring_case ''PROVISIONED'' ''provisioned''"
  "begins_ignoring_case ''provisioned-managed'' ''provisioned''"
  "\<not> begins_ignoring_case ''Standard'' ''provisioned''"
  by (simp_all add: begins_ignoring_case_def same_letter_def uppercase_def lowercase_def)

lemma sum_deployed_example: "sum_deployed example_deployments = 35"
  by (simp add: sum_deployed_def example_deployments_def provisioned_def capacity_of_def
      begins_provisioned_simps)

text \<open>
  Claim C2. When the deployments of the account are listed without failure, the total
  the checker computes and logs is the sum of the capacities (a missing capacity counted
  as 0) of exactly the deployments whose sku name begins with \<open>provisioned\<close>, compared
  case-insensitively; a deployment with no sku, no sku name or another sku name adds
  nothing.
\<close>

theorem total_deployed_is_sum:
  assumes "DefaultAzureCredential az = None"
    and "CognitiveServicesManagementClient az subscription_id = None"
    and "deployments_list az subscription_id resource_group account_name = (deps, None)"
  shows "total_deployed_ptus (scan_deployments deployment_name deps) = sum_deployed deps \<and>
         (INFO, [Txt ''Total deployed PTUs in this account: '', Num (sum_deployed deps)])
           \<in> set (fst (check_ptu_capacity az subscription_id resource_group account_name
                          deployment_name))"
  using assms
  by (simp add: check_ptu_capacity_listed after_deployments_def scan_deployments_total
      case_prod_unfold)

theorem total_deployed_is_sum_witness:
  "(INFO, [Txt ''Total deployed PTUs in this account: '', Num 35])
     \<in> set (fst (check_ptu_capacity example_azure ''sub'' ''rg'' ''acct'' ''gpt-b''))"
  using total_deployed_is_sum [of example_azure "''sub''" "''rg''" "''acct''" example_deployments "''gpt-b''"]
  by (simp add: example_azure_def sum_deployed_example)


section \<open>The reserved total\<close>

lemma startswith_append: "str_startswith s p \<longleftrightarrow> (\<exists>after. s = p @ after)"
proof
  assume "str_startswith s p"
  then have "s = p @ drop (length p) s"
    by (metis append_take_drop_id str_startswith_def)
  then show "\<exists>after. s = p @ after" ..
next
  assume "\<exists>after. s = p @ after"
  then show "str_startswith s p" by (auto simp: str_startswith_def)
qed

lemma str_contains_occurs: "str_contains p s \<longleftrightarrow> occurs_in p s"
proof (induction s)
  case Nil
  show ?case by (simp add: occurs_in_def)
next
  case (Cons c cs)
  have "occurs_in p (c # cs) \<longleftrightarrow> (\<exists>after. c # cs = p @ after) \<or> occurs_in p cs"
  proof
    assume "occurs_in p (c # cs)"
    then obtain before after where eq: "c # cs = before @ p @ after"
      by (auto simp: occurs_in_def)
    show "(\<exists>after. c # cs = p @ after) \<or> occurs_in p cs"
    proof (cases before)
      case Nil
      with eq show ?thesis by auto
    next
      case (Cons b bs)
      with eq have "cs = bs @ p @ after" by simp
      then show ?thesis by (auto simp: occurs_in_def)
    qed
  next
    assume "(\<exists>after. c # cs = p @ after) \<or> occurs_in p cs"
    then show "occurs_in p (c # cs)"
    proof
      assume "\<exists>after. c # cs = p @ after"
      then obtain after where "c # cs = [] @ p @ after" by auto
      then show ?thesis unfolding occurs_in_def by blast
    next
      assume "occurs_in p cs"
      then obtain before after where "cs = before @ p @ after"
        by (auto simp: occurs_in_def)
      then have "c # cs = (c # before) @ p @ after" by simp
      then show ?thesis unfolding occurs_in_def by blast
    qed
  qed
  with Cons show ?case by (simp add: startswith_append)
qed

lemma reservation_body_raises:
  "snd (reservation_body a r) = snd (reservation_body b r)"
  by (simp add: reservation_body_def split: attr.splits option.splits sum.splits)

lemma reservation_step_total:
  "total_reserved_ptus (reservation_step a r) =
   total_reserved_ptus a + (if ptu_reservation r then quantity_of r else 0)"
proof -
  have "\<not> occurs_in ''Provisioned Throughput'' []"
    by (simp add: occurs_in_def)
  then show ?thesis
    by (auto simp: reservation_step_def reservation_body_def ptu_reservation_def quantity_of_def
        int_or_zero_eq str_contains_occurs split: attr.splits option.splits sum.splits)
qed

lemma foldl_reservation_total:
  "total_reserved_ptus (foldl reservation_step a rs) = total_reserved_ptus a + sum_reserved rs"
  by (induction rs arbitrary: a) (simp_all add: reservation_step_total sum_reserved_def)

lemma for_reservations_raises:
  "snd (for_reservations a rs) = snd (for_reservations b rs)"
proof (induction rs arbitrary: a b)
  case Nil
  show ?case by simp
next
  case (Cons r rs)
  obtain a' x where a: "reservation_body a r = (a', x)" by (cases "reservation_body a r")
  obtain b' y where b: "reservation_body b r = (b', y)" by (cases "reservation_body b r")
  from a b reservation_body_raises [of a r b] have "x = y" by simp
  with a b Cons.IH [of a' b'] show ?case by (cases y) simp_all
qed

lemma for_reservations_reached:
  "fst (for_reservations a rs) = foldl reservation_step a (reached rs)"
proof (induction rs arbitrary: a)
  case Nil
  show ?case by simp
next
  case (Cons r rs)
  obtain a' x where a: "reservation_body a r = (a', x)" by (cases "reservation_body a r")
  then have step: "reservation_step a r = a'" by (simp add: reservation_step_def)
  from a reservation_body_raises [of a r res_init] have x: "snd (reservation_body res_init r) = x"
    by simp
  show ?case
  proof (cases x)
    case None
    with a x step Cons.IH [of a'] show ?thesis by simp
  next
    case (Some e)
    with a x step show ?thesis by simp
  qed
qed

lemma for_reservations_all:
  assumes "snd (for_reservations a rs) = None"
  shows "reached rs = rs"
  using assms
proof (induction rs arbitrary: a)
  case Nil
  show ?case by simp
next
  case (Cons r rs)
  obtain a' x where a: "reservation_body a r = (a', x)" by (cases "reservation_body a r")
  from a reservation_body_raises [of a r res_init] have x: "snd (reservation_body res_init r) = x"
    by simp
  show ?case
  proof (cases x)
    case None
    with a Cons.prems have "snd (for_reservations a' rs) = None" by simp
    then have "reached rs = rs" by (rule Cons.IH)
    with None x show ?thesis by simp
  next
    case (Some e)
    with a Cons.prems show ?thesis by simp
  qed
qed

lemma for_orders_yielded:
  "fst (for_orders az a orders) = foldl reservation_step a (yielded az orders)"
proof (induction orders arbitrary: a)
  case Nil
  show ?case by simp
next
  case (Cons order orders)
  obtain rs stop where listing: "reservation_list az (order_name order) = (rs, stop)"
    by (cases "reservation_list az (order_name order)")
  obtain a' x where loop: "for_reservations a rs = (a', x)" by (cases "for_reservations a rs")
  from loop for_reservations_reached [of a rs]
  have a': "a' = foldl reservation_step a (reached rs)" by simp
  from loop for_reservations_raises [of a rs res_init]
  have x: "snd (for_reservations res_init rs) = x" by simp
  show ?case
  proof (cases "x = None \<and> stop = None")
    case True
    with loop have "reached rs = rs" using for_reservations_all [of a rs] by simp
    with True listing loop a' x Cons.IH [of a'] show ?thesis by simp
  next
    case False
    with listing loop a' x show ?thesis by (cases x; cases stop) simp_all
  qed
qed

lemma query_reservations_seen:
  "fst (query_reservations az) = foldl reservation_step res_init (reservations_seen az)"
proof (cases "AzureReservationAPI az")
  case (Some e)
  then show ?thesis by (simp add: query_reservations_def reservations_seen_def)
next
  case None
  obtain orders stop where listing: "reservation_order_list az = (orders, stop)"
    by (cases "reservation_order_list az")
  obtain a raised where loop: "for_orders az res_init orders = (a, raised)"
    by (cases "for_orders az res_init orders")
  from loop have "a = foldl reservation_step res_init (yielded az orders)"
    using for_orders_yielded [of az res_init orders] by simp
  with None listing loop show ?thesis
    by (simp add: query_reservations_def reservations_seen_def split: option.splits)
qed

lemma query_reservations_total:
  "total_reserved_ptus (fst (query_reservations az)) = sum_reserved (reservations_seen az)"
  by (simp add: query_reservations_seen foldl_reservation_total res_init_def)

text \<open>
  The reserved total a run logs is the sum, over the reservations the run reaches, of
  the quantities the checker can read.
\<close>

lemma reserved_total_on_log:
  assumes "DefaultAzureCredential az = None"
    and "CognitiveServicesManagementClient az subscription_id = None"
    and "deployments_list az subscription_id resource_group account_name = (deps, None)"
  shows "(INFO, [Txt ''Total reserved PTUs in subscription: '',
                 Num (sum_reserved (reservations_seen az))])
           \<in> set (fst (check_ptu_capacity az subscription_id resource_group account_name
                          deployment_name))"
  by (simp add: check_ptu_capacity_listed [OF assms] after_deployments_def case_prod_unfold
      query_reservations_total)

text \<open>
  Claim C3. The reserved total should be the sum of the quantities of the reservations
  whose sku description contains \<open>Provisioned Throughput\<close>. On a reservation in the
  shape of the library's class, whose sku description contains the marker and whose
  quantity is 100, it is not: line 122 reads \<^verbatim>\<open>reservation.sku_description\<close>, an
  attribute the object does not have, the inner \<^verbatim>\<open>except\<close> catches the
  \<^verbatim>\<open>AttributeError\<close>, and the checker logs a reserved total of 0 and finds no
  reservations.
\<close>

theorem sdk_reservation_not_counted:
  "sdk_reservations =
     [\<lparr>res_name = Attr (Some ''r-1''), display_name = Absent, sku_description = Absent,
        quantity = Absent, provisioning_state = Absent,
        properties =
          Some \<lparr>prop_display_name = Some ''PTU block'',
                prop_sku_description = Some ''Azure OpenAI Provisioned Throughput'',
                prop_quantity = Some 100,
                prop_provisioning_state = Some ''Succeeded''\<rparr>\<rparr>] \<and>
   reservation_list sdk_azure (Some ''order-1'') = (sdk_reservations, None) \<and>
   query_reservations sdk_azure = (res_init, Some AttributeError) \<and>
   (WARNING, [Txt ''Could not query reservations: '', Exc AttributeError])
     \<in> set (fst (check_ptu_capacity sdk_azure ''sub'' ''rg'' ''acct'' ''gpt-b'')) \<and>
   (INFO, [Txt ''Total reserved PTUs in subscription: '', Num 0])
     \<in> set (fst (check_ptu_capacity sdk_azure ''sub'' ''rg'' ''acct'' ''gpt-b'')) \<and>
   (INFO, [Txt ''Total reserved PTUs in subscription: '', Num 100])
     \<notin> set (fst (check_ptu_capacity sdk_azure ''sub'' ''rg'' ''acct'' ''gpt-b'')) \<and>
   (WARNING, [Txt ''NO RESERVATIONS FOUND!''])
     \<in> set (fst (check_ptu_capacity sdk_azure ''sub'' ''rg'' ''acct'' ''gpt-b''))"
  by code_simp


section \<open>The comparison\<close>

text \<open>
  The lines the two loops and the inner \<^verbatim>\<open>except\<close> log have other shapes than the
  lines of the comparison, so that a verdict line in the log of a run comes from the
  comparison of that run.
\<close>

lemma deployment_step_shape:
  assumes "\<forall>l \<in> set (dep_log a). fst l = WARNING \<and> length (snd l) = 5"
    and "\<forall>detail \<in> set (deployment_details a). length detail = 7"
  shows "(\<forall>l \<in> set (dep_log (deployment_step t a d)). fst l = WARNING \<and> length (snd l) = 5) \<and>
         (\<forall>detail \<in> set (deployment_details (deployment_step t a d)). length detail = 7)"
  using assms
  by (simp add: deployment_step_def startswith_provisioned Let_def ball_Un split: option.splits)

lemma reservation_step_shape:
  assumes "\<forall>detail \<in> set (reservation_details a). length detail = 7"
  shows "\<forall>detail \<in> set (reservation_details (reservation_step a r)). length detail = 7"
  using assms
  by (simp add: reservation_step_def reservation_body_def ball_Un
      split: attr.splits option.splits sum.splits)

lemma foldl_deployment_shape:
  assumes "\<forall>l \<in> set (dep_log a). fst l = WARNING \<and> length (snd l) = 5"
    and "\<forall>detail \<in> set (deployment_details a). length detail = 7"
  shows "(\<forall>l \<in> set (dep_log (foldl (deployment_step t) a ds)). fst l = WARNING \<and> length (snd l) = 5) \<and>
         (\<forall>detail \<in> set (deployment_details (foldl (deployment_step t) a ds)). length detail = 7)"
  using assms
proof (induction ds arbitrary: a)
  case Nil
  then show ?case by simp
next
  case (Cons d ds)
  note step = deployment_step_shape [OF Cons.prems, of t d]
  from Cons.IH [OF conjunct1 [OF step] conjunct2 [OF step]]
  show ?case by simp
qed

lemma scan_deployments_shape:
  "(\<forall>l \<in> set (dep_log (scan_deployments t ds)). fst l = WARNING \<and> length (snd l) = 5) \<and>
   (\<forall>detail \<in> set (deployment_details (scan_deployments t ds)). length detail = 7)"
  unfolding scan_deployments_def
  by (rule foldl_deployment_shape) (simp_all add: dep_init_def)

lemma foldl_reservation_shape:
  assumes "\<forall>detail \<in> set (reservation_details a). length detail = 7"
  shows "\<forall>detail \<in> set (reservation_details (foldl reservation_step a rs)). length detail = 7"
  using assms
proof (induction rs arbitrary: a)
  case Nil
  then show ?case by simp
next
  case (Cons r rs)
  from Cons.IH [OF reservation_step_shape [OF Cons.prems, of r]]
  show ?case by simp
qed

lemma query_reservations_shape:
  "\<forall>detail \<in> set (reservation_details (fst (query_reservations az))). length detail = 7"
  unfolding query_reservations_seen
  by (rule foldl_reservation_shape) (simp add: res_init_def)

text \<open>A line of a breakdown is a title or a detail.\<close>

lemma breakdown_line:
  assumes "l \<in> set (breakdown title details)"
  shows "l = (INFO, [Txt title]) \<or> (\<exists>detail \<in> set details. l = (INFO, detail))"
proof (cases "details = []")
  case True
  with assms show ?thesis by (simp add: breakdown_def)
next
  case False
  with assms show ?thesis by (auto simp: breakdown_def)
qed

lemma verdict_not_in_breakdown:
  assumes "verdict_line l"
    and "\<forall>detail \<in> set details. length detail = 7"
    and "title = ''Deployment breakdown:'' \<or> title = ''Reservation breakdown:''"
  shows "l \<notin> set (breakdown title details)"
proof
  assume "l \<in> set (breakdown title details)"
  from breakdown_line [OF this] assms show False
    by (auto simp: verdict_line_def)
qed

lemma verdict_not_in_dep_log:
  assumes "verdict_line l"
  shows "l \<notin> set (dep_log (scan_deployments t ds))"
proof
  assume "l \<in> set (dep_log (scan_deployments t ds))"
  with scan_deployments_shape [of t ds] have "fst l = WARNING \<and> length (snd l) = 5" by blast
  with assms show False by (auto simp: verdict_line_def)
qed

lemma verdict_not_in_warning:
  assumes "verdict_line l"
  shows "l \<notin> set (reservation_warning raised)"
  using assms by (auto simp: verdict_line_def reservation_warning_def split: option.splits)

lemma verdict_only_in_report:
  assumes "DefaultAzureCredential az = None"
    and "CognitiveServicesManagementClient az subscription_id = None"
    and "deployments_list az subscription_id resource_group account_name = (deps, None)"
    and "verdict_line l"
  shows "l \<in> set (fst (check_ptu_capacity az subscription_id resource_group account_name
                          deployment_name)) \<longleftrightarrow>
         l \<in> set (report deployment_name
                    (total_deployed_ptus (scan_deployments deployment_name deps))
                    (new_deployment_ptus (scan_deployments deployment_name deps))
                    (total_reserved_ptus (fst (query_reservations az))))"
proof -
  have other: "l \<noteq> banner" "l \<noteq> (INFO, [Txt ''PTU CAPACITY CHECK''])"
    "l \<noteq> (INFO, [Txt ''Scanning deployments in account: '', Txt account_name])"
    "l \<noteq> (INFO, [Txt ''Total deployed PTUs in this account: '',
                   Num (total_deployed_ptus (scan_deployments deployment_name deps))])"
    "l \<noteq> (INFO, [Txt ''Checking PTU reservations in subscription...''])"
    "l \<noteq> (INFO, [Txt ''Total reserved PTUs in subscription: '',
                   Num (total_reserved_ptus (fst (query_reservations az)))])"
    "l \<noteq> (INFO, [Txt ''CAPACITY vs RESERVATIONS REPORT''])"
  proof -
    have "replicate 80 (CHR ''='') \<noteq> ''FULLY COVERED by reservations''"
    proof
      assume "replicate 80 (CHR ''='') = ''FULLY COVERED by reservations''"
      then have "length (replicate 80 (CHR ''='')) = length ''FULLY COVERED by reservations''"
        by (rule arg_cong)
      then show False by simp
    qed
    then have "\<not> verdict_line banner"
      by (auto simp: verdict_line_def banner_def)
    with assms(4) show "l \<noteq> banner" by blast
  qed (use assms(4) in \<open>auto simp: verdict_line_def\<close>)
  note absent = verdict_not_in_dep_log [OF assms(4), of deployment_name deps]
    verdict_not_in_warning [OF assms(4), of "snd (query_reservations az)"]
    verdict_not_in_breakdown [OF assms(4), of "deployment_details (scan_deployments deployment_name deps)" "''Deployment breakdown:''"]
    verdict_not_in_breakdown [OF assms(4), of "reservation_details (fst (query_reservations az))" "''Reservation breakdown:''"]
  show ?thesis
    using other absent scan_deployments_shape [of deployment_name deps] query_reservations_shape [of az]
    by (simp add: check_ptu_capacity_listed [OF assms(1-3)] after_deployments_def case_prod_unfold)
qed


lemma report_cases:
  "(reserved = 0 \<longrightarrow>
      (WARNING, [Txt ''NO RESERVATIONS FOUND!'']) \<in> set (report name deployed new reserved) \<and>
      (INFO, [Txt ''FULLY COVERED by reservations'']) \<notin> set (report name deployed new reserved) \<and>
      (ERROR, [Txt ''EXCEEDS RESERVATIONS!'']) \<notin> set (report name deployed new reserved)) \<and>
   (reserved \<noteq> 0 \<and> deployed \<le> reserved \<longrightarrow>
      (WARNING, [Txt ''NO RESERVATIONS FOUND!'']) \<notin> set (report name deployed new reserved) \<and>
      (INFO, [Txt ''FULLY COVERED by reservations'']) \<in> set (report name deployed new reserved) \<and>
      (ERROR, [Txt ''EXCEEDS RESERVATIONS!'']) \<notin> set (report name deployed new reserved) \<and>
      (\<forall>slack. (INFO, [Txt ''   Available: '', Num slack, Txt '' PTUs''])
                  \<in> set (report name deployed new reserved) \<longleftrightarrow> slack = reserved - deployed)) \<and>
   (reserved \<noteq> 0 \<and> reserved < deployed \<longrightarrow>
      (WARNING, [Txt ''NO RESERVATIONS FOUND!'']) \<notin> set (report name deployed new reserved) \<and>
      (INFO, [Txt ''FULLY COVERED by reservations'']) \<notin> set (report name deployed new reserved) \<and>
      (ERROR, [Txt ''EXCEEDS RESERVATIONS!'']) \<in> set (report name deployed new reserved) \<and>
      (\<forall>excess. (ERROR, [Txt ''   EXCESS: '', Num excess, Txt '' PTUs (will be billed hourly)''])
                  \<in> set (report name deployed new reserved) \<longleftrightarrow> excess = deployed - reserved))"
  by (simp add: report_def Let_def)

lemma verdict_lines:
  "verdict_line (WARNING, [Txt ''NO RESERVATIONS FOUND!''])"
  "verdict_line (INFO, [Txt ''FULLY COVERED by reservations''])"
  "verdict_line (ERROR, [Txt ''EXCEEDS RESERVATIONS!''])"
  "verdict_line (INFO, [Txt ''   Available: '', Num n, Txt '' PTUs''])"
  "verdict_line (ERROR, [Txt ''   EXCESS: '', Num n, Txt '' PTUs (will be billed hourly)''])"
  "verdict_line (ERROR, [Txt ''   New deployment '', Quoted name, Txt '' ('', Num n,
                         Txt '' PTUs) may be partially/fully billed hourly''])"
  by (simp_all add: verdict_line_def)

text \<open>
  Claim C1. For the two totals a run of the checker computes, the comparison takes
  exactly one of three cases, tried in this order: no reservations when the reserved
  total is 0; otherwise fully covered when the deployed total is at most the reserved
  total, and the slack logged is their difference; otherwise exceeds reservations, and
  the excess logged is the deployed total less the reserved total. The log of the run
  holds the headline of that case and of no other.
\<close>

theorem three_cases:
  assumes "DefaultAzureCredential az = None"
    and "CognitiveServicesManagementClient az subscription_id = None"
    and "deployments_list az subscription_id resource_group account_name = (deps, None)"
    and "lines = set (fst (check_ptu_capacity az subscription_id resource_group account_name
                             deployment_name))"
    and "deployed = total_deployed_ptus (scan_deployments deployment_name deps)"
    and "reserved = total_reserved_ptus (fst (query_reservations az))"
  shows
  "(reserved = 0 \<longrightarrow>
      (WARNING, [Txt ''NO RESERVATIONS FOUND!'']) \<in> lines \<and>
      (INFO, [Txt ''FULLY COVERED by reservations'']) \<notin> lines \<and>
      (ERROR, [Txt ''EXCEEDS RESERVATIONS!'']) \<notin> lines) \<and>
   (reserved \<noteq> 0 \<and> deployed \<le> reserved \<longrightarrow>
      (WARNING, [Txt ''NO RESERVATIONS FOUND!'']) \<notin> lines \<and>
      (INFO, [Txt ''FULLY COVERED by reservations'']) \<in> lines \<and>
      (ERROR, [Txt ''EXCEEDS RESERVATIONS!'']) \<notin> lines \<and>
      (\<forall>slack. (INFO, [Txt ''   Available: '', Num slack, Txt '' PTUs'']) \<in> lines
                 \<longleftrightarrow> slack = reserved - deployed)) \<and>
   (reserved \<noteq> 0 \<and> reserved < deployed \<longrightarrow>
      (WARNING, [Txt ''NO RESERVATIONS FOUND!'']) \<notin> lines \<and>
      (INFO, [Txt ''FULLY COVERED by reservations'']) \<notin> lines \<and>
      (ERROR, [Txt ''EXCEEDS RESERVATIONS!'']) \<in> lines \<and>
      (\<forall>excess. (ERROR, [Txt ''   EXCESS: '', Num excess, Txt '' PTUs (will be billed hourly)''])
                   \<in> lines \<longleftrightarrow> excess = deployed - reserved))"
  unfolding assms(4-6)
  using report_cases [of "total_reserved_ptus (fst (query_reservations az))" deployment_name
      "total_deployed_ptus (scan_deployments deployment_name deps)"
      "new_deployment_ptus (scan_deployments deployment_name deps)"]
  by (simp only: verdict_only_in_report [OF assms(1-3)] verdict_lines(1-5))

theorem three_cases_witness:
  "(WARNING, [Txt ''NO RESERVATIONS FOUND!''])
     \<notin> set (fst (check_ptu_capacity example_azure ''sub'' ''rg'' ''acct'' ''gpt-b'')) \<and>
   (INFO, [Txt ''FULLY COVERED by reservations''])
     \<in> set (fst (check_ptu_capacity example_azure ''sub'' ''rg'' ''acct'' ''gpt-b'')) \<and>
   (ERROR, [Txt ''EXCEEDS RESERVATIONS!''])
     \<notin> set (fst (check_ptu_capacity example_azure ''sub'' ''rg'' ''acct'' ''gpt-b'')) \<and>
   (INFO, [Txt ''   Available: '', Num 65, Txt '' PTUs''])
     \<in> set (fst (check_ptu_capacity example_azure ''sub'' ''rg'' ''acct'' ''gpt-b''))"
proof -
  have listed: "DefaultAzureCredential example_azure = None"
    "CognitiveServicesManagementClient example_azure ''sub'' = None"
    "deployments_list example_azure ''sub'' ''rg'' ''acct'' = (example_deployments, None)"
    by (simp_all add: example_azure_def)
  have deployed: "35 = total_deployed_ptus (scan_deployments ''gpt-b'' example_deployments)"
    by (simp add: scan_deployments_total sum_deployed_example)
  have "total_reserved_ptus (fst (query_reservations example_azure)) = 100"
    by code_simp
  then have reserved: "100 = total_reserved_ptus (fst (query_reservations example_azure))"
    by simp
  from three_cases [OF listed refl deployed reserved] show ?thesis by simp
qed

section \<open>The capacity of the new deployment\<close>

lemma deployment_step_new:
  "new_deployment_ptus (deployment_step t a d) =
   (if provisioned d \<and> dep_name d = Some t then capacity_of d else new_deployment_ptus a)"
  by (simp add: deployment_step_def provisioned_def capacity_of_def int_or_zero_eq
      startswith_provisioned Let_def split: option.splits)

lemma scan_deployments_snoc:
  "scan_deployments t (ds @ [d]) = deployment_step t (scan_deployments t ds) d"
  by (simp add: scan_deployments_def)

lemma report_flag:
  "(ERROR, [Txt ''   New deployment '', Quoted name, Txt '' ('', Num n,
            Txt '' PTUs) may be partially/fully billed hourly''])
     \<in> set (report name deployed new reserved) \<longleftrightarrow>
   reserved \<noteq> 0 \<and> reserved < deployed \<and> n = new \<and> 0 < new"
  by (auto simp: report_def Let_def)

lemma provisioned_examples:
  "provisioned (example_deployments ! 1)" "\<not> provisioned (example_deployments ! 3)"
  by (simp_all add: example_deployments_def provisioned_def begins_provisioned_simps)

text \<open>
  Claim C8, as the code has it. The capacity recorded for the new deployment is 0 at
  first. The loop records a deployment's capacity when the deployment has a provisioned
  sku and its name is the target name; any other deployment, also one with the target
  name and another sku, leaves the recorded capacity as it is. The log of a run holds
  the line of the comparison about the new deployment exactly when the deployed total
  of the run exceeds its reserved total, that total is not 0, and the capacity the loop
  recorded is positive; the line shows that capacity.
\<close>

theorem new_deployment_capacity:
  assumes "DefaultAzureCredential az = None"
    and "CognitiveServicesManagementClient az subscription_id = None"
    and "deployments_list az subscription_id resource_group account_name = (deps, None)"
    and "lines = set (fst (check_ptu_capacity az subscription_id resource_group account_name
                             deployment_name))"
    and "deployed = total_deployed_ptus (scan_deployments deployment_name deps)"
    and "reserved = total_reserved_ptus (fst (query_reservations az))"
    and "new = new_deployment_ptus (scan_deployments deployment_name deps)"
  shows
  "new_deployment_ptus (scan_deployments deployment_name []) = 0 \<and>
   (\<forall>ds dep. provisioned dep \<and> dep_name dep = Some deployment_name \<longrightarrow>
      new_deployment_ptus (scan_deployments deployment_name (ds @ [dep])) = capacity_of dep) \<and>
   (\<forall>ds dep. \<not> (provisioned dep \<and> dep_name dep = Some deployment_name) \<longrightarrow>
      new_deployment_ptus (scan_deployments deployment_name (ds @ [dep])) =
      new_deployment_ptus (scan_deployments deployment_name ds)) \<and>
   (\<forall>n. (ERROR, [Txt ''   New deployment '', Quoted deployment_name, Txt '' ('', Num n,
                  Txt '' PTUs) may be partially/fully billed hourly'']) \<in> lines \<longleftrightarrow>
        reserved \<noteq> 0 \<and> reserved < deployed \<and> n = new \<and> 0 < new)"
proof (intro conjI allI impI)
  show "new_deployment_ptus (scan_deployments deployment_name []) = 0"
    by (simp add: scan_deployments_def dep_init_def)
next
  fix ds and dep :: deployment
  assume "provisioned dep \<and> dep_name dep = Some deployment_name"
  then show "new_deployment_ptus (scan_deployments deployment_name (ds @ [dep])) = capacity_of dep"
    by (simp add: scan_deployments_snoc deployment_step_new)
next
  fix ds and dep :: deployment
  assume "\<not> (provisioned dep \<and> dep_name dep = Some deployment_name)"
  then show "new_deployment_ptus (scan_deployments deployment_name (ds @ [dep])) =
      new_deployment_ptus (scan_deployments deployment_name ds)"
    by (simp only: scan_deployments_snoc deployment_step_new if_False)
next
  fix n
  show "(ERROR, [Txt ''   New deployment '', Quoted deployment_name, Txt '' ('', Num n,
                 Txt '' PTUs) may be partially/fully billed hourly'']) \<in> lines \<longleftrightarrow>
        reserved \<noteq> 0 \<and> reserved < deployed \<and> n = new \<and> 0 < new"
    unfolding assms(4-7)
    by (simp only: verdict_only_in_report [OF assms(1-3)] verdict_lines(6) report_flag)
qed

lemma small_azure_totals:
  "total_deployed_ptus (scan_deployments ''gpt-b'' example_deployments) = 35"
  "total_reserved_ptus (fst (query_reservations small_azure)) = 30"
  "new_deployment_ptus (scan_deployments ''gpt-b'' example_deployments) = 20"
  by code_simp+

theorem new_deployment_capacity_witness:
  "new_deployment_ptus
     (scan_deployments ''gpt-b'' (take 1 example_deployments @ [example_deployments ! 1])) = 20 \<and>
   new_deployment_ptus
     (scan_deployments ''gpt-b'' (take 3 example_deployments @ [example_deployments ! 3])) =
   new_deployment_ptus (scan_deployments ''gpt-b'' (take 3 example_deployments)) \<and>
   (ERROR, [Txt ''   New deployment '', Quoted ''gpt-b'', Txt '' ('', Num 20,
            Txt '' PTUs) may be partially/fully billed hourly''])
     \<in> set (fst (check_ptu_capacity small_azure ''sub'' ''rg'' ''acct'' ''gpt-b''))"
proof -
  have listed: "DefaultAzureCredential small_azure = None"
    "CognitiveServicesManagementClient small_azure ''sub'' = None"
    "deployments_list small_azure ''sub'' ''rg'' ''acct'' = (example_deployments, None)"
    by (simp_all add: small_azure_def example_azure_def)
  note run = new_deployment_capacity [OF listed refl small_azure_totals(1) [symmetric]
      small_azure_totals(2) [symmetric] small_azure_totals(3) [symmetric]]
  from run have recorded:
    "provisioned (example_deployments ! 1) \<and> dep_name (example_deployments ! 1) = Some ''gpt-b'' \<longrightarrow>
       new_deployment_ptus
         (scan_deployments ''gpt-b'' (take 1 example_deployments @ [example_deployments ! 1])) =
       capacity_of (example_deployments ! 1)"
    by blast
  from run have kept:
    "\<not> (provisioned (example_deployments ! 3) \<and> dep_name (example_deployments ! 3) = Some ''gpt-b'') \<longrightarrow>
       new_deployment_ptus
         (scan_deployments ''gpt-b'' (take 3 example_deployments @ [example_deployments ! 3])) =
       new_deployment_ptus (scan_deployments ''gpt-b'' (take 3 example_deployments))"
    by blast
  from run have flagged:
    "(ERROR, [Txt ''   New deployment '', Quoted ''gpt-b'', Txt '' ('', Num 20,
              Txt '' PTUs) may be partially/fully billed hourly''])
       \<in> set (fst (check_ptu_capacity small_azure ''sub'' ''rg'' ''acct'' ''gpt-b'')) \<longleftrightarrow>
     (30::int) \<noteq> 0 \<and> (30::int) < 35 \<and> (20::int) = 20 \<and> (0::int) < 20"
    by blast
  from recorded kept flagged provisioned_examples show ?thesis
    by (simp add: example_deployments_def capacity_of_def)
qed

text \<open>
  The claim as stated, for every deployment with the target name, fails: the fourth
  example deployment has the target name and 50 units of a standard sku, and the
  capacity recorded is 0.
\<close>

theorem new_deployment_capacity_counterexample:
  "dep_name (example_deployments ! 3) = Some ''gpt-d'' \<and>
   capacity_of (example_deployments ! 3) = 50 \<and>
   new_deployment_ptus (scan_deployments ''gpt-d'' example_deployments) = 0"
  by (simp add: scan_deployments_def dep_init_def example_deployments_def deployment_step_def
      lower_startswith_provisioned begins_provisioned_simps int_or_zero_def capacity_of_def
      Let_def)




section \<open>The totals are never negative\<close>

lemma capacity_of_nonneg:
  assumes "\<forall>sk c. dep_sku dep = Some sk \<and> sku_capacity sk = Some c \<longrightarrow> 0 \<le> c"
  shows "0 \<le> capacity_of dep"
  using assms by (simp add: capacity_of_def split: option.splits)

lemma quantity_of_nonneg:
  assumes "\<forall>q. quantity r = Attr (Some q) \<longrightarrow> 0 \<le> q"
  shows "0 \<le> quantity_of r"
  using assms by (simp add: quantity_of_def split: attr.splits option.splits)

lemma foldl_deployment_nonneg:
  assumes "\<forall>dep \<in> set ds. 0 \<le> capacity_of dep"
    and "0 \<le> total_deployed_ptus a" and "0 \<le> new_deployment_ptus a"
  shows "0 \<le> total_deployed_ptus (foldl (deployment_step t) a ds) \<and>
         0 \<le> new_deployment_ptus (foldl (deployment_step t) a ds)"
  using assms
proof (induction ds arbitrary: a)
  case Nil
  then show ?case by simp
next
  case (Cons d ds)
  from Cons.prems have "0 \<le> total_deployed_ptus (deployment_step t a d)"
    and "0 \<le> new_deployment_ptus (deployment_step t a d)"
    by (simp_all add: deployment_step_total deployment_step_new)
  moreover from Cons.prems have "\<forall>dep \<in> set ds. 0 \<le> capacity_of dep" by simp
  ultimately show ?case using Cons.IH [of "deployment_step t a d"] by simp
qed

lemma foldl_reservation_nonneg:
  assumes "\<forall>r \<in> set rs. 0 \<le> quantity_of r" and "0 \<le> total_reserved_ptus a"
  shows "0 \<le> total_reserved_ptus (foldl reservation_step a rs)"
  using assms
proof (induction rs arbitrary: a)
  case Nil
  then show ?case by simp
next
  case (Cons r rs)
  from Cons.prems have "0 \<le> total_reserved_ptus (reservation_step a r)"
    by (simp add: reservation_step_total)
  moreover from Cons.prems have "\<forall>r \<in> set rs. 0 \<le> quantity_of r" by simp
  ultimately show ?case using Cons.IH [of "reservation_step a r"] by simp
qed

lemma reached_listed: "set (reached rs) \<subseteq> set rs"
  by (induction rs) auto

lemma yielded_listed:
  assumes "r \<in> set (yielded az orders)"
  shows "\<exists>order. r \<in> set (fst (reservation_list az order))"
  using assms
proof (induction orders)
  case Nil
  then show ?case by simp
next
  case (Cons order orders)
  obtain rs stop where listing: "reservation_list az (order_name order) = (rs, stop)"
    by (cases "reservation_list az (order_name order)")
  show ?case
  proof (cases "r \<in> set rs")
    case True
    with listing have "r \<in> set (fst (reservation_list az (order_name order)))" by simp
    then show ?thesis ..
  next
    case False
    with reached_listed [of rs] have "r \<notin> set (reached rs)" by blast
    with False Cons.prems listing have "r \<in> set (yielded az orders)"
      by (simp split: if_splits)
    then show ?thesis by (rule Cons.IH)
  qed
qed

lemma reservations_seen_listed:
  assumes "r \<in> set (reservations_seen az)"
  shows "\<exists>order. r \<in> set (fst (reservation_list az order))"
proof (cases "AzureReservationAPI az")
  case None
  with assms have "r \<in> set (yielded az (fst (reservation_order_list az)))"
    by (simp add: reservations_seen_def)
  then show ?thesis by (rule yielded_listed)
next
  case (Some e)
  with assms show ?thesis by (simp add: reservations_seen_def)
qed

text \<open>
  Claim C9. When every capacity and every quantity read is missing or a non-negative
  integer, the deployed total and the capacity of the new deployment are non-negative
  after any number of deployments, and the reserved total is non-negative after any
  number of the reservations read; a missing capacity or quantity leaves its total as
  it is.
\<close>

theorem totals_never_negative:
  assumes "\<forall>dep \<in> set deps. \<forall>sk c. dep_sku dep = Some sk \<and> sku_capacity sk = Some c \<longrightarrow> 0 \<le> c"
    and "\<forall>order. \<forall>r \<in> set (fst (reservation_list az order)).
           \<forall>q. quantity r = Attr (Some q) \<longrightarrow> 0 \<le> q"
  shows "(\<forall>k. 0 \<le> total_deployed_ptus (scan_deployments deployment_name (take k deps)) \<and>
              0 \<le> new_deployment_ptus (scan_deployments deployment_name (take k deps))) \<and>
         (\<forall>k. 0 \<le> total_reserved_ptus
                     (foldl reservation_step res_init (take k (reservations_seen az)))) \<and>
         (\<forall>a dep sk. dep_sku dep = Some sk \<and> sku_capacity sk = None \<longrightarrow>
              total_deployed_ptus (deployment_step deployment_name a dep) = total_deployed_ptus a) \<and>
         (\<forall>a r. quantity r = Attr None \<or> quantity r = Absent \<longrightarrow>
              total_reserved_ptus (reservation_step a r) = total_reserved_ptus a)"
proof (intro conjI allI impI)
  fix k
  have "\<forall>dep \<in> set (take k deps). 0 \<le> capacity_of dep"
    using assms(1) by (meson capacity_of_nonneg in_set_takeD)
  then have both: "0 \<le> total_deployed_ptus (scan_deployments deployment_name (take k deps)) \<and>
         0 \<le> new_deployment_ptus (scan_deployments deployment_name (take k deps))"
    unfolding scan_deployments_def
    by (rule foldl_deployment_nonneg) (simp_all add: dep_init_def)
  from both show "0 \<le> total_deployed_ptus (scan_deployments deployment_name (take k deps))" ..
  from both show "0 \<le> new_deployment_ptus (scan_deployments deployment_name (take k deps))" ..
next
  fix k
  have "\<forall>r \<in> set (take k (reservations_seen az)). 0 \<le> quantity_of r"
  proof
    fix r
    assume "r \<in> set (take k (reservations_seen az))"
    then have "r \<in> set (reservations_seen az)" by (rule in_set_takeD)
    then obtain order where "r \<in> set (fst (reservation_list az order))"
      using reservations_seen_listed by blast
    with assms(2) have "\<forall>q. quantity r = Attr (Some q) \<longrightarrow> 0 \<le> q" by blast
    then show "0 \<le> quantity_of r" by (rule quantity_of_nonneg)
  qed
  then show "0 \<le> total_reserved_ptus
                     (foldl reservation_step res_init (take k (reservations_seen az)))"
    by (rule foldl_reservation_nonneg) (simp add: res_init_def)
next
  fix a :: dep_acc and dep :: deployment and sk :: sku
  assume "dep_sku dep = Some sk \<and> sku_capacity sk = None"
  then show "total_deployed_ptus (deployment_step deployment_name a dep) = total_deployed_ptus a"
    by (simp add: deployment_step_total capacity_of_def)
next
  fix a :: res_acc and r :: reservation
  assume "quantity r = Attr None \<or> quantity r = Absent"
  then show "total_reserved_ptus (reservation_step a r) = total_reserved_ptus a"
    by (auto simp: reservation_step_total quantity_of_def)
qed

theorem totals_never_negative_witness:
  "0 \<le> total_deployed_ptus (scan_deployments ''gpt-b'' (take 2 example_deployments)) \<and>
   0 \<le> new_deployment_ptus (scan_deployments ''gpt-b'' (take 2 example_deployments)) \<and>
   0 \<le> total_reserved_ptus
          (foldl reservation_step res_init (take 1 (reservations_seen example_azure)))"
proof -
  have deps: "\<forall>dep \<in> set example_deployments.
      \<forall>sk c. dep_sku dep = Some sk \<and> sku_capacity sk = Some c \<longrightarrow> 0 \<le> c"
    by (auto simp: example_deployments_def)
  have res: "\<forall>order. \<forall>r \<in> set (fst (reservation_list example_azure order)).
      \<forall>q. quantity r = Attr (Some q) \<longrightarrow> 0 \<le> q"
    by (auto simp: example_azure_def example_reservations_def)
  from totals_never_negative [OF deps res, of "''gpt-b''"] show ?thesis by blast
qed


section \<open>A failure while the reservations are read\<close>

lemma after_deployments_raised:
  assumes "snd (query_reservations az) = Some e"
  shows "after_deployments az deployment_name d =
          ([(INFO, [Txt ''Total deployed PTUs in this account: '', Num (total_deployed_ptus d)])] @
           breakdown ''Deployment breakdown:'' (deployment_details d) @
           [(INFO, [Txt ''Checking PTU reservations in subscription...''])]) @
          [(WARNING, [Txt ''Could not query reservations: '', Exc e]),
           (WARNING, [Txt ''Note: Reservation data may be delayed up to 24 hours after purchase'']),
           (INFO, [Txt ''Total reserved PTUs in subscription: '',
                   Num (sum_reserved (reservations_seen az))])] @
          breakdown ''Reservation breakdown:'' (reservation_details (fst (query_reservations az))) @
          [banner, (INFO, [Txt ''CAPACITY vs RESERVATIONS REPORT'']), banner] @
          report deployment_name (total_deployed_ptus d) (new_deployment_ptus d)
            (sum_reserved (reservations_seen az)) @
          [banner]"
  unfolding after_deployments_def case_prod_unfold assms reservation_warning_def
    query_reservations_total
  by simp


lemma failing_azure_raises: "snd (query_reservations failing_azure) = Some (SdkError ''timeout'')"
  by code_simp

lemma failing_azure_sum: "sum_reserved (reservations_seen failing_azure) = 140"
proof -
  have "total_reserved_ptus (fst (query_reservations failing_azure)) = 140"
    by code_simp
  then show ?thesis by (simp only: query_reservations_total)
qed

text \<open>
  Claim C5. When reading the reservations raises, at the construction of the client,
  in the listing of the orders or in the listing of the reservations of an order, the
  checker catches the exception and does not raise: it logs a warning with the
  exception, takes as reserved total the sum over the reservations read before the
  failure (possibly none), and goes on to the comparison with that total.
\<close>

theorem reservation_failure_is_caught:
  assumes "DefaultAzureCredential az = None"
    and "CognitiveServicesManagementClient az subscription_id = None"
    and "deployments_list az subscription_id resource_group account_name = (deps, None)"
    and "snd (query_reservations az) = Some e"
  shows "snd (check_ptu_capacity az subscription_id resource_group account_name deployment_name)
           = None \<and>
         (\<exists>before.
            fst (check_ptu_capacity az subscription_id resource_group account_name deployment_name)
              = before @
                [(WARNING, [Txt ''Could not query reservations: '', Exc e]),
                 (WARNING, [Txt ''Note: Reservation data may be delayed up to 24 hours after purchase'']),
                 (INFO, [Txt ''Total reserved PTUs in subscription: '',
                         Num (sum_reserved (reservations_seen az))])] @
                breakdown ''Reservation breakdown:''
                  (reservation_details (fst (query_reservations az))) @
                [banner, (INFO, [Txt ''CAPACITY vs RESERVATIONS REPORT'']), banner] @
                report deployment_name
                  (total_deployed_ptus (scan_deployments deployment_name deps))
                  (new_deployment_ptus (scan_deployments deployment_name deps))
                  (sum_reserved (reservations_seen az)) @
                [banner])"
proof (rule conjI)
  show "snd (check_ptu_capacity az subscription_id resource_group account_name deployment_name)
          = None"
    by (simp add: check_ptu_capacity_listed [OF assms(1-3)])
next
  let ?d = "scan_deployments deployment_name deps"
  let ?before = "[banner, (INFO, [Txt ''PTU CAPACITY CHECK'']), banner,
              (INFO, [Txt ''Scanning deployments in account: '', Txt account_name])] @
             dep_log ?d @
             [(INFO, [Txt ''Total deployed PTUs in this account: '', Num (total_deployed_ptus ?d)])] @
             breakdown ''Deployment breakdown:'' (deployment_details ?d) @
             [(INFO, [Txt ''Checking PTU reservations in subscription...''])]"
  have "fst (check_ptu_capacity az subscription_id resource_group account_name deployment_name)
          = ?before @
            [(WARNING, [Txt ''Could not query reservations: '', Exc e]),
             (WARNING, [Txt ''Note: Reservation data may be delayed up to 24 hours after purchase'']),
             (INFO, [Txt ''Total reserved PTUs in subscription: '',
                     Num (sum_reserved (reservations_seen az))])] @
            breakdown ''Reservation breakdown:''
              (reservation_details (fst (query_reservations az))) @
            [banner, (INFO, [Txt ''CAPACITY vs RESERVATIONS REPORT'']), banner] @
            report deployment_name (total_deployed_ptus ?d) (new_deployment_ptus ?d)
              (sum_reserved (reservations_seen az)) @
            [banner]"
    by (simp add: check_ptu_capacity_listed [OF assms(1-3)]
        after_deployments_raised [OF assms(4)])
  then show "\<exists>before.
            fst (check_ptu_capacity az subscription_id resource_group account_name deployment_name)
              = before @
                [(WARNING, [Txt ''Could not query reservations: '', Exc e]),
                 (WARNING, [Txt ''Note: Reservation data may be delayed up to 24 hours after purchase'']),
                 (INFO, [Txt ''Total reserved PTUs in subscription: '',
                         Num (sum_reserved (reservations_seen az))])] @
                breakdown ''Reservation breakdown:''
                  (reservation_details (fst (query_reservations az))) @
                [banner, (INFO, [Txt ''CAPACITY vs RESERVATIONS REPORT'']), banner] @
                report deployment_name
                  (total_deployed_ptus (scan_deployments deployment_name deps))
                  (new_deployment_ptus (scan_deployments deployment_name deps))
                  (sum_reserved (reservations_seen az)) @
                [banner]"
    by (rule exI [of _ ?before])
qed

theorem reservation_failure_is_caught_witness:
  "snd (query_reservations failing_azure) = Some (SdkError ''timeout'') \<and>
   snd (check_ptu_capacity failing_azure ''sub'' ''rg'' ''acct'' ''gpt-b'') = None \<and>
   (WARNING, [Txt ''Could not query reservations: '', Exc (SdkError ''timeout'')])
     \<in> set (fst (check_ptu_capacity failing_azure ''sub'' ''rg'' ''acct'' ''gpt-b'')) \<and>
   (INFO, [Txt ''Total reserved PTUs in subscription: '', Num 140])
     \<in> set (fst (check_ptu_capacity failing_azure ''sub'' ''rg'' ''acct'' ''gpt-b''))"
proof -
  have listed: "DefaultAzureCredential failing_azure = None"
    "CognitiveServicesManagementClient failing_azure ''sub'' = None"
    "deployments_list failing_azure ''sub'' ''rg'' ''acct'' = (example_deployments, None)"
    by (simp_all add: failing_azure_def example_azure_def)
  from reservation_failure_is_caught [OF listed failing_azure_raises, of "''gpt-b''"]
  obtain before where returns:
      "snd (check_ptu_capacity failing_azure ''sub'' ''rg'' ''acct'' ''gpt-b'') = None"
    and logged: "fst (check_ptu_capacity failing_azure ''sub'' ''rg'' ''acct'' ''gpt-b'') =
      before @
      [(WARNING, [Txt ''Could not query reservations: '', Exc (SdkError ''timeout'')]),
       (WARNING, [Txt ''Note: Reservation data may be delayed up to 24 hours after purchase'']),
       (INFO, [Txt ''Total reserved PTUs in subscription: '', Num 140])] @
      breakdown ''Reservation breakdown:''
        (reservation_details (fst (query_reservations failing_azure))) @
      [banner, (INFO, [Txt ''CAPACITY vs RESERVATIONS REPORT'']), banner] @
      report ''gpt-b'' (total_deployed_ptus (scan_deployments ''gpt-b'' example_deployments))
        (new_deployment_ptus (scan_deployments ''gpt-b'' example_deployments)) 140 @
      [banner]"
    unfolding failing_azure_sum by blast
  show ?thesis
    unfolding logged by (simp add: failing_azure_raises returns)
qed

section \<open>Exceptions in the checker\<close>

lemma check_ptu_capacity_returns:
  "snd (check_ptu_capacity az subscription_id resource_group account_name deployment_name) = None"
  by (simp add: check_ptu_capacity_def split: prod.splits option.splits)

text \<open>
  Claim C10. The checker never raises to its caller: whatever the calls into the client
  libraries answer, it returns normally, and an exception that leaves the body of its
  \<^verbatim>\<open>try\<close> is logged as an error.
\<close>

theorem check_ptu_capacity_never_raises:
  "snd (check_ptu_capacity az subscription_id resource_group account_name deployment_name) = None \<and>
   (\<forall>e. snd (check_body az subscription_id resource_group account_name deployment_name) = Some e \<longrightarrow>
      (ERROR, [Txt ''Error checking PTU capacity: '', Exc e])
        \<in> set (fst (check_ptu_capacity az subscription_id resource_group account_name
                       deployment_name)))"
  by (simp add: check_ptu_capacity_def split: prod.splits option.splits)


theorem check_ptu_capacity_never_raises_witness:
  "snd (check_body no_credential_azure ''sub'' ''rg'' ''acct'' ''gpt-b'') =
     Some (SdkError ''no credential'') \<and>
   snd (check_ptu_capacity no_credential_azure ''sub'' ''rg'' ''acct'' ''gpt-b'') = None \<and>
   (ERROR, [Txt ''Error checking PTU capacity: '', Exc (SdkError ''no credential'')])
     \<in> set (fst (check_ptu_capacity no_credential_azure ''sub'' ''rg'' ''acct'' ''gpt-b''))"
  using check_ptu_capacity_never_raises [of no_credential_azure "''sub''" "''rg''" "''acct''" "''gpt-b''"]
  by (simp add: check_body_def no_credential_azure_def example_azure_def)

section \<open>Properties of the event handler\<close>

subsection \<open>The example events\<close>

lemma split_example:
  "str_split (ev_subject example_event) (CHR ''/'') =
     ['''', ''subscriptions'', ''sub-1'', ''resourceGroups'', ''rg-1'', ''providers'',
      ''Microsoft.CognitiveServices'', ''accounts'', ''acct-1'', ''deployments'', ''gpt-b'']"
  by (simp add: example_event_def str_split_def)

lemma split_account:
  "str_split account_subject (CHR ''/'') =
     ['''', ''subscriptions'', ''sub-1'', ''resourceGroups'', ''rg-1'', ''providers'',
      ''Microsoft.CognitiveServices'', ''accounts'', ''acct-1'']"
  by (simp add: account_subject_def str_split_def)

lemma split_short:
  "str_split short_subject (CHR ''/'') =
     ['''', ''subscriptions'', ''sub-1'', ''resourceGroups'', ''rg-1'', ''providers'',
      ''Microsoft.CognitiveServices'', ''accounts'']"
  by (simp add: short_subject_def str_split_def)

lemma contains_examples:
  "str_contains ''Microsoft.CognitiveServices/accounts'' (ev_subject example_event)"
  "str_contains ''Microsoft.CognitiveServices/accounts'' account_subject"
  "str_contains ''Microsoft.CognitiveServices/accounts'' short_subject"
  "str_contains ''deployments/write'' ''Microsoft.CognitiveServices/accounts/deployments/write''"
  "\<not> str_contains ''deployments/write'' ''Microsoft.CognitiveServices/accounts/write''"
  by (simp_all add: example_event_def account_subject_def short_subject_def str_startswith_def)


lemma parse_short: "parse_subject short_subject = Inl IndexError"
  by (simp add: parse_subject_def split_short list_get_def)

lemma parse_example:
  "parse_subject (ev_subject example_event) = Inr (''sub-1'', ''rg-1'', ''acct-1'', ''gpt-b'')"
  by (simp add: parse_subject_def split_example list_get_def)

subsection \<open>Events that are skipped\<close>

lemma dict_get_other_key:
  assumes "dict_get j k d = Inr v"
  shows "\<exists>v'. dict_get j k' d' = Inr v'"
  using assms by (cases j) simp_all

text \<open>
  Claim C4, as the code has it. The test on the operation name is containment, not
  equality. When the payload is an object and either the subject does not contain
  \<open>Microsoft.CognitiveServices/accounts\<close> or the operation name (\<open>N/A\<close> when the
  payload has none) is a string that does not contain \<open>deployments/write\<close>, the
  handler logs the event, logs that it is skipped, and returns the success result; the
  checker is not called, so nothing of its log appears and the result does not depend on
  what Azure would answer.
\<close>

theorem non_deployment_event_is_skipped:
  assumes "dict_get (ev_json event) ''operationName'' (JStr ''N/A'') = Inr operation_name"
    and "\<not> str_contains ''Microsoft.CognitiveServices/accounts'' (ev_subject event) \<or>
         (\<exists>s. operation_name = JStr s \<and> \<not> str_contains ''deployments/write'' s)"
  shows "\<exists>st. ptu_ri_alert_function az event =
           (opening_lines event @
            [(INFO, [Txt ''Operation: '', Json operation_name]), (INFO, [Txt ''Status: '', Json st])] @
            [(INFO, [Txt ''Non-deployment event, skipping PTU check''])] @
            closing_lines,
            Inr \<lparr>status = ''success'', event_id = ev_id event,
                 event_type = ev_event_type event\<rparr>)"
proof -
  from dict_get_other_key [OF assms(1)]
  obtain st where st: "dict_get (ev_json event) ''status'' (JStr ''N/A'') = Inr st" by blast
  from assms(2) have "is_deployment_event (ev_subject event) operation_name = Inr False"
    by (auto simp: is_deployment_event_def)
  with assms(1) st have "ptu_ri_alert_function az event =
           (opening_lines event @
            [(INFO, [Txt ''Operation: '', Json operation_name]), (INFO, [Txt ''Status: '', Json st])] @
            [(INFO, [Txt ''Non-deployment event, skipping PTU check''])] @
            closing_lines,
            Inr \<lparr>status = ''success'', event_id = ev_id event,
                 event_type = ev_event_type event\<rparr>)"
    by (simp add: ptu_ri_alert_function_def skipped_lines_def)
  then show ?thesis by (rule exI [of _ st])
qed


theorem non_deployment_event_is_skipped_witness:
  "snd (ptu_ri_alert_function example_azure account_event) =
     Inr \<lparr>status = ''success'', event_id = ''event-1'',
          event_type = ''Microsoft.Resources.ResourceWriteSuccess''\<rparr> \<and>
   (INFO, [Txt ''Non-deployment event, skipping PTU check''])
     \<in> set (fst (ptu_ri_alert_function example_azure account_event))"
proof -
  have op: "dict_get (ev_json account_event) ''operationName'' (JStr ''N/A'') =
      Inr (JStr ''Microsoft.CognitiveServices/accounts/write'')"
    by (simp add: account_event_def)
  have no: "\<not> str_contains ''Microsoft.CognitiveServices/accounts'' (ev_subject account_event) \<or>
      (\<exists>s. JStr ''Microsoft.CognitiveServices/accounts/write'' = JStr s \<and>
           \<not> str_contains ''deployments/write'' s)"
    using contains_examples(5) by blast
  from non_deployment_event_is_skipped [OF op no, of example_azure]
  obtain st where run: "ptu_ri_alert_function example_azure account_event =
           (opening_lines account_event @
            [(INFO, [Txt ''Operation: '', Json (JStr ''Microsoft.CognitiveServices/accounts/write'')]),
             (INFO, [Txt ''Status: '', Json st])] @
            [(INFO, [Txt ''Non-deployment event, skipping PTU check''])] @
            closing_lines,
            Inr \<lparr>status = ''success'', event_id = ev_id account_event,
                 event_type = ev_event_type account_event\<rparr>)" by blast
  show ?thesis
    unfolding run by (simp add: account_event_def example_event_def)
qed


text \<open>
  The claim as stated, with equality, fails on the event Event Grid sends for a write
  to a deployment: its operation name is not equal to \<open>deployments/write\<close>, it
  contains it, and the handler calls the checker.
\<close>

theorem skipped_counterexample:
  "dict_get (ev_json example_event) ''operationName'' (JStr ''N/A'') =
     Inr (JStr ''Microsoft.CognitiveServices/accounts/deployments/write'') \<and>
   JStr ''Microsoft.CognitiveServices/accounts/deployments/write'' \<noteq> JStr ''deployments/write'' \<and>
   fst (ptu_ri_alert_function example_azure example_event) =
     opening_lines example_event @
     [(INFO, [Txt ''Operation: '',
              Json (JStr ''Microsoft.CognitiveServices/accounts/deployments/write'')]),
      (INFO, [Txt ''Status: '', Json (JStr ''Succeeded'')]),
      (WARNING, [Txt ''AI deployment detected!'']),
      (WARNING, [Txt ''   Resource: '', Txt (ev_subject example_event)]),
      (INFO, [Txt ''Subscription: '', Txt ''sub-1'']),
      (INFO, [Txt ''Resource Group: '', Txt ''rg-1'']),
      (INFO, [Txt ''Account: '', Txt ''acct-1'']),
      (INFO, [Txt ''Deployment: '', Txt ''gpt-b''])] @
     fst (check_ptu_capacity example_azure ''sub-1'' ''rg-1'' ''acct-1'' ''gpt-b'') @
     closing_lines \<and>
   (INFO, [Txt ''PTU CAPACITY CHECK''])
     \<in> set (fst (check_ptu_capacity example_azure ''sub-1'' ''rg-1'' ''acct-1'' ''gpt-b'')) \<and>
   (INFO, [Txt ''Non-deployment event, skipping PTU check''])
     \<notin> set (fst (ptu_ri_alert_function example_azure example_event))"
proof -
  have op: "dict_get (ev_json example_event) ''operationName'' (JStr ''N/A'') =
     Inr (JStr ''Microsoft.CognitiveServices/accounts/deployments/write'')"
    and st: "dict_get (ev_json example_event) ''status'' (JStr ''N/A'') = Inr (JStr ''Succeeded'')"
    by (simp_all add: example_event_def)
  have pass: "is_deployment_event (ev_subject example_event)
                (JStr ''Microsoft.CognitiveServices/accounts/deployments/write'') = Inr True"
    by (simp add: is_deployment_event_def contains_examples str_startswith_def)
  have "snd (check_ptu_capacity example_azure ''sub-1'' ''rg-1'' ''acct-1'' ''gpt-b'') = None"
    by (rule check_ptu_capacity_returns)
  then have "on_deployment example_azure (ev_subject example_event) =
     [(WARNING, [Txt ''AI deployment detected!'']),
      (WARNING, [Txt ''   Resource: '', Txt (ev_subject example_event)]),
      (INFO, [Txt ''Subscription: '', Txt ''sub-1'']),
      (INFO, [Txt ''Resource Group: '', Txt ''rg-1'']),
      (INFO, [Txt ''Account: '', Txt ''acct-1'']),
      (INFO, [Txt ''Deployment: '', Txt ''gpt-b''])] @
     fst (check_ptu_capacity example_azure ''sub-1'' ''rg-1'' ''acct-1'' ''gpt-b'')"
    by (simp add: on_deployment_def process_deployment_def parse_example case_prod_unfold)
  with op st pass have "fst (ptu_ri_alert_function example_azure example_event) =
     opening_lines example_event @
     [(INFO, [Txt ''Operation: '',
              Json (JStr ''Microsoft.CognitiveServices/accounts/deployments/write'')]),
      (INFO, [Txt ''Status: '', Json (JStr ''Succeeded'')]),
      (WARNING, [Txt ''AI deployment detected!'']),
      (WARNING, [Txt ''   Resource: '', Txt (ev_subject example_event)]),
      (INFO, [Txt ''Subscription: '', Txt ''sub-1'']),
      (INFO, [Txt ''Resource Group: '', Txt ''rg-1'']),
      (INFO, [Txt ''Account: '', Txt ''acct-1'']),
      (INFO, [Txt ''Deployment: '', Txt ''gpt-b''])] @
     fst (check_ptu_capacity example_azure ''sub-1'' ''rg-1'' ''acct-1'' ''gpt-b'') @
     closing_lines"
    by (simp add: ptu_ri_alert_function_def)
  moreover have "(INFO, [Txt ''PTU CAPACITY CHECK''])
     \<in> set (fst (check_ptu_capacity example_azure ''sub-1'' ''rg-1'' ''acct-1'' ''gpt-b''))"
    by (simp add: check_ptu_capacity_def split: prod.splits option.splits)
  moreover have "(INFO, [Txt ''Non-deployment event, skipping PTU check''])
     \<notin> set (fst (ptu_ri_alert_function example_azure example_event))"
    by code_simp
  ultimately show ?thesis using op by simp
qed


subsection \<open>Events that are processed\<close>

lemma handler_on_deployment:
  assumes "dict_get (ev_json event) ''operationName'' (JStr ''N/A'') = Inr operation_name"
    and "is_deployment_event (ev_subject event) operation_name = Inr True"
  shows "\<exists>st. ptu_ri_alert_function az event =
           (opening_lines event @
            [(INFO, [Txt ''Operation: '', Json operation_name]), (INFO, [Txt ''Status: '', Json st])] @
            on_deployment az (ev_subject event) @ closing_lines,
            Inr \<lparr>status = ''success'', event_id = ev_id event,
                 event_type = ev_event_type event\<rparr>)"
proof -
  from dict_get_other_key [OF assms(1)]
  obtain st where st: "dict_get (ev_json event) ''status'' (JStr ''N/A'') = Inr st" by blast
  with assms have "ptu_ri_alert_function az event =
           (opening_lines event @
            [(INFO, [Txt ''Operation: '', Json operation_name]), (INFO, [Txt ''Status: '', Json st])] @
            on_deployment az (ev_subject event) @ closing_lines,
            Inr \<lparr>status = ''success'', event_id = ev_id event,
                 event_type = ev_event_type event\<rparr>)"
    by (simp add: ptu_ri_alert_function_def)
  then show ?thesis by (rule exI [of _ st])
qed

lemma on_deployment_raised:
  assumes "snd (process_deployment az subject) = Some e"
  shows "(ERROR, [Txt ''Error processing deployment event: '', Exc e])
           \<in> set (on_deployment az subject)"
  using assms by (cases "process_deployment az subject") (simp add: on_deployment_def)

text \<open>
  Claim C6. For an event that passes the filter, the handler returns the dictionary
  with status \<open>success\<close>, the event id and the event type, also when parsing the
  subject or the checker raises: the exception is logged as an error and does not leave
  the handler.
\<close>

theorem handler_returns_success:
  assumes "dict_get (ev_json event) ''operationName'' (JStr ''N/A'') = Inr operation_name"
    and "is_deployment_event (ev_subject event) operation_name = Inr True"
  shows "snd (ptu_ri_alert_function az event) =
           Inr \<lparr>status = ''success'', event_id = ev_id event,
                event_type = ev_event_type event\<rparr> \<and>
         (\<forall>e. snd (process_deployment az (ev_subject event)) = Some e \<longrightarrow>
              (ERROR, [Txt ''Error processing deployment event: '', Exc e])
                \<in> set (fst (ptu_ri_alert_function az event)))"
proof -
  from handler_on_deployment [OF assms, of az]
  obtain st where run: "ptu_ri_alert_function az event =
           (opening_lines event @
            [(INFO, [Txt ''Operation: '', Json operation_name]), (INFO, [Txt ''Status: '', Json st])] @
            on_deployment az (ev_subject event) @ closing_lines,
            Inr \<lparr>status = ''success'', event_id = ev_id event,
                 event_type = ev_event_type event\<rparr>)" by blast
  show ?thesis
    unfolding run by (simp add: on_deployment_raised)
qed

theorem handler_returns_success_witness:
  "snd (process_deployment example_azure short_subject) = Some IndexError \<and>
   snd (ptu_ri_alert_function example_azure (example_event\<lparr>ev_subject := short_subject\<rparr>)) =
     Inr \<lparr>status = ''success'', event_id = ''event-1'',
          event_type = ''Microsoft.Resources.ResourceWriteSuccess''\<rparr> \<and>
   (ERROR, [Txt ''Error processing deployment event: '', Exc IndexError])
     \<in> set (fst (ptu_ri_alert_function example_azure
                    (example_event\<lparr>ev_subject := short_subject\<rparr>)))"
proof -
  have op: "dict_get (ev_json (example_event\<lparr>ev_subject := short_subject\<rparr>)) ''operationName''
              (JStr ''N/A'') = Inr (JStr ''Microsoft.CognitiveServices/accounts/deployments/write'')"
    by (simp add: example_event_def)
  have pass: "is_deployment_event (ev_subject (example_event\<lparr>ev_subject := short_subject\<rparr>))
                (JStr ''Microsoft.CognitiveServices/accounts/deployments/write'') = Inr True"
    by (simp add: is_deployment_event_def contains_examples str_startswith_def)
  have raised: "snd (process_deployment example_azure short_subject) = Some IndexError"
    by (simp add: process_deployment_def parse_short)
  from handler_returns_success [OF op pass, of example_azure] raised
  show ?thesis by (simp add: example_event_def)
qed

subsection \<open>The deployment name of a short subject\<close>

text \<open>
  Claim C7, as the code has it. For a subject of 9 or 10 segments the deployment name
  is \<open>unknown\<close> and nothing is raised; subscription id, resource group and account
  name are the segments 2, 4 and 8.
\<close>

theorem deployment_name_unknown:
  assumes "9 \<le> length (str_split subject (CHR ''/''))"
    and "length (str_split subject (CHR ''/'')) < 11"
  shows "parse_subject subject =
           Inr (str_split subject (CHR ''/'') ! 2, str_split subject (CHR ''/'') ! 4,
                str_split subject (CHR ''/'') ! 8, ''unknown'')"
  using assms by (simp add: parse_subject_def list_get_def Let_def)

theorem deployment_name_unknown_witness:
  "is_deployment_event account_subject
     (JStr ''Microsoft.CognitiveServices/accounts/deployments/write'') = Inr True \<and>
   length (str_split account_subject (CHR ''/'')) = 9 \<and>
   parse_subject account_subject = Inr (''sub-1'', ''rg-1'', ''acct-1'', ''unknown'')"
  using deployment_name_unknown [of account_subject]
  by (simp add: split_account is_deployment_event_def contains_examples str_startswith_def)

text \<open>
  The claim as stated, for every subject of fewer than 11 segments, fails on a subject
  of 8 segments that passes the filter: reading segment 8 raises \<^verbatim>\<open>IndexError\<close>
  before the deployment name is looked at.
\<close>

theorem deployment_name_unknown_counterexample:
  "is_deployment_event short_subject
     (JStr ''Microsoft.CognitiveServices/accounts/deployments/write'') = Inr True \<and>
   length (str_split short_subject (CHR ''/'')) < 11 \<and>
   parse_subject short_subject = Inl IndexError"
  by (simp add: parse_short split_short is_deployment_event_def contains_examples str_startswith_def)


end
